theory Spec2Isabelle
  imports Main "HOL-Library.List_Lexorder" "HOL-Library.Char_ord" "HOL-Library.Word"
begin

section \<open>Data model of the metadata coordinator\<close>

text \<open>
  The protobuf messages of \<^verbatim>\<open>zp_meta.proto\<close> as records. A \<open>Node\<close> is an endpoint, a
  \<open>NodeStatus\<close> pairs it with the status integer (0 is up, 1 is down), \<open>Partitions\<close> is one
  partition with its master and the ordered slaves, and \<open>MetaCmdResponse_Pull\<close> is the
  partitions table with its version. The field \<open>id\<close> of a partition and of a replica set is
  written \<open>p_id\<close> and \<open>rs_id\<close>, the repeated field \<open>node\<close> of a replica set \<open>rs_node\<close>.
  Integers of the messages and the cached version are unbounded \<open>int\<close>: the code only compares
  them and adds one.
\<close>

record Node =
  ip :: string
  port :: int

record NodeStatus =
  node :: Node
  status :: int

type_synonym Nodes = "NodeStatus list"

record Partitions =
  p_id :: nat
  master :: Node
  slaves :: "Node list"

record Replicaset =
  rs_id :: nat
  rs_node :: "Node list"

record MetaCmdResponse_Pull =
  version :: int
  info :: "Partitions list"

text \<open>The enum \<open>ZPNodeStatus\<close>.\<close>

definition kNodeUp :: int where
  "kNodeUp = 0"

definition kNodeDown :: int where
  "kNodeDown = 1"

text \<open>\<open>slash::Status\<close>, with the three kinds this file constructs.\<close>

datatype Status = OK | NotFound string | Corruption string

definition ok :: "Status \<Rightarrow> bool" where
  "ok s = (s = OK)"

definition IsNotFound :: "Status \<Rightarrow> bool" where
  "IsNotFound s = (case s of NotFound _ \<Rightarrow> True | _ \<Rightarrow> False)"

text \<open>
  How a call ends: it returns a value, an exception leaves it (\<open>std::stoi\<close> in
  \<open>PartitionNums\<close> is the only source), or it never returns (the loop of \<open>Reorganize\<close>).
\<close>

datatype 'a outcome = Returns 'a | Throws | Diverges

section \<open>The replicated store\<close>

text \<open>
  Modelled from the spec: the consensus engine \<open>floyd\<close> is an external library. A stored value
  is a byte string; the model keeps what was serialized, so that parsing a value gives back the
  message that was written (round trip R1 of the spec) and fails on a value of another kind.
  \<open>Text\<close> is a plain string, as written under the key of the partition number.
\<close>

datatype bytes =
    Text string
  | NodesBytes Nodes
  | PullBytes MetaCmdResponse_Pull
  | ReplicasetBytes Replicaset

datatype fstatus = FOk | FNotFound | FErr

text \<open>
  Modelled from the spec: the store is a map from keys to values. Every call of the engine
  may fail for reasons outside the program; \<open>faults\<close> is the schedule of these failures, one
  entry consumed by each call, \<open>True\<close> for a call that fails with an error and leaves the
  store as it is (an exhausted schedule means no failure). \<open>wlog\<close> is a history of the writes
  issued, each with its key, its value and whether it succeeded; the program never reads it.
\<close>

record floyd =
  kv :: "string \<Rightarrow> bytes option"
  faults :: "bool list"
  wlog :: "(string \<times> bytes \<times> bool) list"

definition next_fault :: "floyd \<Rightarrow> bool \<times> floyd" where
  "next_fault f = (case faults f of [] \<Rightarrow> (False, f) | b # r \<Rightarrow> (b, f\<lparr>faults := r\<rparr>))"

text \<open>A dirty read of an absent key answers \<open>NotFound\<close> (\<open>GetAllNode\<close> tests for it).\<close>

definition floyd_DirtyRead :: "floyd \<Rightarrow> string \<Rightarrow> (fstatus \<times> bytes) \<times> floyd" where
  "floyd_DirtyRead f key =
     (case next_fault f of (b, f') \<Rightarrow>
        if b then ((FErr, Text []), f')
        else (case kv f key of
                None \<Rightarrow> ((FNotFound, Text []), f')
              | Some v \<Rightarrow> ((FOk, v), f')))"

text \<open>
  A consistent read of an absent key answers ok with the empty string: \<open>InitVersion\<close> tests
  \<open>value == ""\<close> where it once tested for \<open>NotFound\<close>.
\<close>

definition floyd_Read :: "floyd \<Rightarrow> string \<Rightarrow> (fstatus \<times> bytes) \<times> floyd" where
  "floyd_Read f key =
     (case next_fault f of (b, f') \<Rightarrow>
        if b then ((FErr, Text []), f')
        else (case kv f key of
                None \<Rightarrow> ((FOk, Text []), f')
              | Some v \<Rightarrow> ((FOk, v), f')))"

definition floyd_Write :: "floyd \<Rightarrow> string \<Rightarrow> bytes \<Rightarrow> fstatus \<times> floyd" where
  "floyd_Write f key v =
     (case next_fault f of (b, f') \<Rightarrow>
        if b then (FErr, f'\<lparr>wlog := wlog f' @ [(key, v, False)]\<rparr>)
        else (FOk, f'\<lparr>kv := (kv f')(key \<mapsto> v), wlog := wlog f' @ [(key, v, True)]\<rparr>))"

subsection \<open>Decimal strings\<close>

text \<open>\<open>std::to_string\<close> on an integer, and \<open>std::stoi\<close>, whose \<open>None\<close> is the exception.\<close>

definition digit_char :: "nat \<Rightarrow> char" where
  "digit_char d = ''0123456789'' ! d"

function to_string_nat :: "nat \<Rightarrow> string" where
  "to_string_nat n =
     (if n < 10 then [digit_char n] else to_string_nat (n div 10) @ [digit_char (n mod 10)])"
  by pat_completeness auto
termination
  by (relation "measure id") auto

declare to_string_nat.simps [simp del]

definition to_string :: "int \<Rightarrow> string" where
  "to_string i = (if i < 0 then CHR ''-'' # to_string_nat (nat (- i)) else to_string_nat (nat i))"

definition isspace :: "char \<Rightarrow> bool" where
  "isspace c = (of_char c \<in> {9, 10, 11, 12, 13, 32 :: nat})"

definition isdigit :: "char \<Rightarrow> bool" where
  "isdigit c = (c \<in> set ''0123456789'')"

definition digit_val :: "char \<Rightarrow> nat" where
  "digit_val c = of_char c - 48"

definition stoi :: "string \<Rightarrow> int option" where
  "stoi s =
     (let s1 = dropWhile isspace s;
          neg = (s1 \<noteq> [] \<and> hd s1 = CHR ''-'');
          s2 = (if s1 \<noteq> [] \<and> (hd s1 = CHR ''-'' \<or> hd s1 = CHR ''+'') then tl s1 else s1);
          ds = takeWhile isdigit s2;
          v = int (foldl (\<lambda>a c. 10 * a + digit_val c) 0 ds);
          r = (if neg then - v else v)
      in if ds = [] then None
         else if r < - 2147483648 \<or> 2147483647 < r then None
         else Some r)"

text \<open>The stored value as \<open>std::stoi\<close> reads it; a serialized message is not a number.\<close>

definition stoi_bytes :: "bytes \<Rightarrow> int option" where
  "stoi_bytes v = (case v of Text s \<Rightarrow> stoi s | _ \<Rightarrow> None)"

subsection \<open>Keys\<close>

text \<open>
  Modelled from the spec: the key macros are declared in a header outside the sources; the
  reserved keys are \<open>ND\<close>, \<open>MT\<close>, \<open>PN\<close> and \<open>PART:<id>\<close>.
\<close>

definition ZP_META_KEY_ND :: string where
  "ZP_META_KEY_ND = ''ND''"

definition ZP_META_KEY_MT :: string where
  "ZP_META_KEY_MT = ''MT''"

definition ZP_META_KEY_PN :: string where
  "ZP_META_KEY_PN = ''PN''"

definition ZP_META_KEY_PREFIX :: string where
  "ZP_META_KEY_PREFIX = ''PART:''"

definition PartitionId2Key :: "nat \<Rightarrow> string" where
  "PartitionId2Key i = ZP_META_KEY_PREFIX @ to_string_nat i"

section \<open>The server\<close>

text \<open>
  The members of \<open>ZPMetaServer\<close> the topology operations use, with the suffix \<open>_m\<close> for the
  trailing underscore of the source: the store, the cached version, the liveness map (the
  seconds of the last heartbeat per endpoint string) and the tasks handed to the update thread.
  A \<open>std::map\<close> with string keys is an association list kept in ascending key order, the order
  in which the source iterates over it.
\<close>

fun map_set :: "string \<Rightarrow> 'v \<Rightarrow> (string \<times> 'v) list \<Rightarrow> (string \<times> 'v) list" where
  "map_set k v [] = [(k, v)]"
| "map_set k v ((k', v') # m) =
     (if k = k' then (k, v) # m
      else if k < k' then (k, v) # (k', v') # m
      else (k', v') # map_set k v m)"

datatype ZPMetaUpdateOP = kOpAdd | kOpRemove

record ZPMetaServer =
  floyd_m :: floyd
  version_m :: int
  node_alive_m :: "(string \<times> int) list"
  update_thread_m :: "(string \<times> ZPMetaUpdateOP) list"

definition Set :: "ZPMetaServer \<Rightarrow> string \<Rightarrow> bytes \<Rightarrow> Status \<times> ZPMetaServer" where
  "Set s key v =
     (case floyd_Write (floyd_m s) key v of (fs, f') \<Rightarrow>
        (if fs = FOk then OK else Corruption ''floyd set error!'', s\<lparr>floyd_m := f'\<rparr>))"

text \<open>Serializing a message whose fields are set does not fail.\<close>

definition SetReplicaset :: "ZPMetaServer \<Rightarrow> nat \<Rightarrow> Replicaset \<Rightarrow> Status \<times> ZPMetaServer" where
  "SetReplicaset s partition_id replicaset =
     Set s (PartitionId2Key partition_id) (ReplicasetBytes replicaset)"

definition SetMSInfo :: "ZPMetaServer \<Rightarrow> MetaCmdResponse_Pull \<Rightarrow> Status \<times> ZPMetaServer" where
  "SetMSInfo s cmd = Set s ZP_META_KEY_MT (PullBytes cmd)"

definition GetAllNode :: "ZPMetaServer \<Rightarrow> (Status \<times> Nodes) \<times> ZPMetaServer" where
  "GetAllNode s =
     (case floyd_DirtyRead (floyd_m s) ZP_META_KEY_ND of ((fs, v), f') \<Rightarrow>
        (if fs = FOk then
           (case v of NodesBytes ns \<Rightarrow> (OK, ns) | _ \<Rightarrow> (Corruption ''Parse failed'', []))
         else if fs = FNotFound then (NotFound ''not found from floyd'', [])
         else (Corruption ''floyd get error!'', []),
         s\<lparr>floyd_m := f'\<rparr>))"

definition GetAllAliveNode :: "Nodes \<Rightarrow> NodeStatus list \<Rightarrow> NodeStatus list" where
  "GetAllAliveNode nodes alive_nodes = alive_nodes @ filter (\<lambda>ns. status ns = 0) nodes"

fun FindNode :: "Nodes \<Rightarrow> string \<Rightarrow> int \<Rightarrow> bool" where
  "FindNode [] ip0 port0 = False"
| "FindNode (ns # nodes) ip0 port0 =
     (if ip0 = ip (node ns) \<and> port0 = port (node ns) then True else FindNode nodes ip0 port0)"

definition GetMSInfo :: "ZPMetaServer \<Rightarrow> (Status \<times> MetaCmdResponse_Pull) \<times> ZPMetaServer" where
  "GetMSInfo s =
     (case floyd_DirtyRead (floyd_m s) ZP_META_KEY_MT of ((fs, v), f') \<Rightarrow>
        (if fs = FOk then
           (case v of PullBytes t \<Rightarrow> (OK, t)
                    | _ \<Rightarrow> (Corruption ''Parse failed'', \<lparr>version = 0, info = []\<rparr>))
         else (Corruption ''Read full_meta failed!'', \<lparr>version = 0, info = []\<rparr>),
         s\<lparr>floyd_m := f'\<rparr>))"

definition PartitionNums :: "ZPMetaServer \<Rightarrow> int option \<times> ZPMetaServer" where
  "PartitionNums s =
     (case floyd_DirtyRead (floyd_m s) ZP_META_KEY_PN of ((fs, v), f') \<Rightarrow>
        (if fs = FOk then stoi_bytes v else Some 0, s\<lparr>floyd_m := f'\<rparr>))"

subsection \<open>OnNode\<close>

text \<open>The index of the first element of a list that passes a test, as the scans with \<open>break\<close> find it.\<close>

fun first_index :: "('a \<Rightarrow> bool) \<Rightarrow> 'a list \<Rightarrow> nat option" where
  "first_index P [] = None"
| "first_index P (x # xs) = (if P x then Some 0 else map_option Suc (first_index P xs))"

text \<open>
  The body of the loop over the partitions: the flag says whether the partition was rewritten.
  The last slave is copied into slot \<open>j\<close> and the last slot is removed.
\<close>

definition OnNode_partition :: "string \<Rightarrow> int \<Rightarrow> Partitions \<Rightarrow> bool \<times> Partitions" where
  "OnNode_partition ip0 port0 p =
     (if ip (master p) = [] \<and> port (master p) = 0 then
        (let slaves_size = length (slaves p) in
         case first_index (\<lambda>n. ip n = ip0 \<and> port n = port0) (slaves p) of
           None \<Rightarrow> (False, p)
         | Some j \<Rightarrow>
             (True, p\<lparr>master := slaves p ! j,
                      slaves := butlast ((slaves p)[j := slaves p ! (slaves_size - 1)])\<rparr>))
      else (False, p))"

fun OnNode_for :: "string \<Rightarrow> int \<Rightarrow> Partitions list \<Rightarrow> bool \<times> Partitions list" where
  "OnNode_for ip0 port0 [] = (False, [])"
| "OnNode_for ip0 port0 (p # ps) =
     (case OnNode_partition ip0 port0 p of (c, p') \<Rightarrow>
      case OnNode_for ip0 port0 ps of (cs, ps') \<Rightarrow> (c \<or> cs, p' # ps'))"

definition OnNode :: "ZPMetaServer \<Rightarrow> string \<Rightarrow> int \<Rightarrow> Status \<times> ZPMetaServer" where
  "OnNode s ip0 port0 =
     (case GetMSInfo s of ((fs, ms_info), s1) \<Rightarrow>
        if \<not> ok fs then (fs, s1)
        else (case OnNode_for ip0 port0 (info ms_info) of (should_rewrite, info') \<Rightarrow>
          if \<not> should_rewrite then (OK, s1)
          else (case SetMSInfo s1 \<lparr>version = version_m s1 + 1, info = info'\<rparr> of (fs', s2) \<Rightarrow>
            if ok fs' then (fs', s2\<lparr>version_m := version_m s2 + 1\<rparr>) else (fs', s2))))"

subsection \<open>SetNodeStatus and AddNode\<close>

definition SetNodeStatus ::
  "ZPMetaServer \<Rightarrow> Nodes \<Rightarrow> string \<Rightarrow> int \<Rightarrow> int \<Rightarrow> Status \<times> ZPMetaServer" where
  "SetNodeStatus s nodes ip0 port0 st =
     (case first_index (\<lambda>ns. ip0 = ip (node ns) \<and> port0 = port (node ns)) nodes of
        None \<Rightarrow> (NotFound ''not found this node'', s)
      | Some i \<Rightarrow>
          if status (nodes ! i) = st then (OK, s)
          else (case floyd_Write (floyd_m s) ZP_META_KEY_ND
                       (NodesBytes (nodes[i := (nodes ! i)\<lparr>status := st\<rparr>])) of (fs, f') \<Rightarrow>
            if fs = FOk then
              (if st = kNodeUp then
                 (case OnNode (s\<lparr>floyd_m := f'\<rparr>) ip0 port0 of (os, s') \<Rightarrow>
                    if \<not> ok os then (Corruption ''OnNode error!'', s') else (OK, s'))
               else (OK, s\<lparr>floyd_m := f'\<rparr>))
            else (Corruption ''floyd set error!'', s\<lparr>floyd_m := f'\<rparr>)))"

definition AddNode :: "ZPMetaServer \<Rightarrow> string \<Rightarrow> int \<Rightarrow> Status \<times> ZPMetaServer" where
  "AddNode s ip0 port0 =
     (case GetAllNode s of ((st, nodes), s1) \<Rightarrow>
        if ok st \<and> FindNode nodes ip0 port0 then SetNodeStatus s1 nodes ip0 port0 kNodeUp
        else if IsNotFound st \<or> ok st then
          (case floyd_Write (floyd_m s1) ZP_META_KEY_ND
                  (NodesBytes (nodes @ [\<lparr>node = \<lparr>ip = ip0, port = port0\<rparr>, status = kNodeUp\<rparr>]))
           of (fs, f') \<Rightarrow>
             (if fs = FOk then OK else Corruption ''floyd set error!'', s1\<lparr>floyd_m := f'\<rparr>))
        else (st, s1))"

subsection \<open>OffNode\<close>

fun IsAlive :: "NodeStatus list \<Rightarrow> string \<Rightarrow> int \<Rightarrow> bool" where
  "IsAlive [] ip0 port0 = False"
| "IsAlive (ns # alive_nodes) ip0 port0 =
     (if ip (node ns) = ip0 \<and> port (node ns) = port0 then True else IsAlive alive_nodes ip0 port0)"

text \<open>
  The body of the loop over the partitions. \<open>tmp\<close> is the copy of the former master; the scan
  stops at the first slave that is alive, and \<open>j == slaves_size\<close> is the scan finding none.
\<close>

definition OffNode_partition ::
  "NodeStatus list \<Rightarrow> string \<Rightarrow> int \<Rightarrow> Partitions \<Rightarrow> bool \<times> Partitions" where
  "OffNode_partition alive_nodes ip0 port0 p =
     (if ip0 \<noteq> ip (master p) \<or> port0 \<noteq> port (master p) then (False, p)
      else (let tmp = master p in
        case first_index (\<lambda>n. IsAlive alive_nodes (ip n) (port n)) (slaves p) of
          Some j \<Rightarrow> (True, p\<lparr>master := slaves p ! j, slaves := (slaves p)[j := tmp]\<rparr>)
        | None \<Rightarrow> (True, p\<lparr>master := \<lparr>ip = [], port = 0\<rparr>, slaves := slaves p @ [tmp]\<rparr>)))"

fun OffNode_for ::
  "NodeStatus list \<Rightarrow> string \<Rightarrow> int \<Rightarrow> Partitions list \<Rightarrow> bool \<times> Partitions list" where
  "OffNode_for alive_nodes ip0 port0 [] = (False, [])"
| "OffNode_for alive_nodes ip0 port0 (p # ps) =
     (case OffNode_partition alive_nodes ip0 port0 p of (c, p') \<Rightarrow>
      case OffNode_for alive_nodes ip0 port0 ps of (cs, ps') \<Rightarrow> (c \<or> cs, p' # ps'))"

definition OffNode :: "ZPMetaServer \<Rightarrow> string \<Rightarrow> int \<Rightarrow> Status \<times> ZPMetaServer" where
  "OffNode s ip0 port0 =
     (case GetAllNode s of ((st, nodes), s1) \<Rightarrow>
        if \<not> ok st then (st, s1)
        else (let alive_nodes = GetAllAliveNode nodes [] in
          case SetNodeStatus s1 nodes ip0 port0 kNodeDown of (st2, s2) \<Rightarrow>
            if \<not> ok st2 then (st2, s2)
            else (case GetMSInfo s2 of ((st3, ms_info), s3) \<Rightarrow>
              if \<not> ok st3 then (st3, s3)
              else (case OffNode_for alive_nodes ip0 port0 (info ms_info) of
                      (should_rewrite, info') \<Rightarrow>
                if \<not> should_rewrite then (OK, s3)
                else (case SetMSInfo s3 \<lparr>version = version_m s3 + 1, info = info'\<rparr> of
                        (st4, s4) \<Rightarrow>
                  if ok st4 then (st4, s4\<lparr>version_m := version_m s4 + 1\<rparr>)
                  else (st4, s4))))))"

subsection \<open>Reorganize\<close>

text \<open>
  The first loop files every node under its ip. The second loop is a pass over the buckets
  in key order: an empty bucket adds one to \<open>empty_count\<close>, a bucket with elements gives its
  last one. \<open>empty_count\<close> is set to zero once, before the \<open>while\<close>, and compared with the
  number of buckets before each pass. Both are of type \<open>int\<close> in the source and words of 32
  bits here: a count that has passed the number of buckets goes on, wraps around and may
  meet it later, and the loop ends then; if it never meets it, the loop does not end.
\<close>

definition Reorganize_bucket ::
  "(string \<times> NodeStatus list) list \<Rightarrow> NodeStatus \<Rightarrow> (string \<times> NodeStatus list) list" where
  "Reorganize_bucket m x =
     (case map_of m (ip (node x)) of
        Some n \<Rightarrow> map_set (ip (node x)) (n @ [x]) m
      | None \<Rightarrow> map_set (ip (node x)) [x] m)"

fun Reorganize_for ::
  "(string \<times> NodeStatus list) list \<Rightarrow> 32 word \<Rightarrow> NodeStatus list \<Rightarrow>
     (string \<times> NodeStatus list) list \<times> 32 word \<times> NodeStatus list" where
  "Reorganize_for [] empty_count alive_nodes = ([], empty_count, alive_nodes)"
| "Reorganize_for ((k, v) # m) empty_count alive_nodes =
     (if v = [] then
        (case Reorganize_for m (empty_count + 1) alive_nodes of (m', e', a') \<Rightarrow>
           ((k, v) # m', e', a'))
      else
        (case Reorganize_for m empty_count (alive_nodes @ [last v]) of (m', e', a') \<Rightarrow>
           ((k, butlast v) # m', e', a')))"

partial_function (option) Reorganize_while ::
  "(string \<times> NodeStatus list) list \<Rightarrow> 32 word \<Rightarrow> 32 word \<Rightarrow> NodeStatus list \<Rightarrow>
     NodeStatus list option" where
  "Reorganize_while m msize empty_count alive_nodes =
     (if empty_count = msize then Some alive_nodes
      else (case Reorganize_for m empty_count alive_nodes of (m', e', a') \<Rightarrow>
              Reorganize_while m' msize e' a'))"

declare Reorganize_while.simps [code]

definition Reorganize :: "NodeStatus list \<Rightarrow> NodeStatus list \<Rightarrow> NodeStatus list option" where
  "Reorganize t_alive_nodes alive_nodes =
     (let m = foldl Reorganize_bucket [] t_alive_nodes
      in Reorganize_while m (of_nat (length m)) 0 alive_nodes)"

subsection \<open>Distribute\<close>

text \<open>
  The loop over the partition numbers: it builds the replica set and the partition from three
  consecutive nodes of the reorganized list, writes the replica set and leaves at the first
  write that fails. The index is an unbounded integer; \<open>i + 2\<close> stays in the range of \<open>int\<close>
  for \<open>num\<close> below \<open>2147483647\<close>. The list of nodes is the one \<open>Reorganize\<close> returned for a
  list that is not empty, and is not empty itself (for fewer than \<open>2^32\<close> nodes).
\<close>

function Distribute_for ::
  "NodeStatus list \<Rightarrow> int \<Rightarrow> int \<Rightarrow> Partitions list \<Rightarrow> ZPMetaServer \<Rightarrow>
     Status \<times> Partitions list \<times> ZPMetaServer" where
  "Distribute_for alive_nodes num i infos s =
     (if i < num then
        (let an_num = int (length alive_nodes);
             n0 = node (alive_nodes ! nat (i mod an_num));
             n1 = node (alive_nodes ! nat ((i + 1) mod an_num));
             n2 = node (alive_nodes ! nat ((i + 2) mod an_num));
             replicaset = \<lparr>rs_id = nat i, rs_node = [n0, n1, n2]\<rparr>;
             p = \<lparr>p_id = nat i, master = n0, slaves = [n1, n2]\<rparr>
         in case SetReplicaset s (nat i) replicaset of (st, s') \<Rightarrow>
              if \<not> ok st then (st, infos @ [p], s')
              else Distribute_for alive_nodes num (i + 1) (infos @ [p]) s')
      else (OK, infos, s))"
  by pat_completeness auto
termination
  by (relation "measure (\<lambda>(alive_nodes, num, i, infos, s). nat (num - i))") auto

declare Distribute_for.simps [simp del]

text \<open>
  What \<open>Distribute\<close> does once the guard on the partition number has let it through. After the
  write of the table it writes the partition number whatever the status of the table's write
  was, and that last write decides the status returned.
\<close>

definition Distribute_placement :: "ZPMetaServer \<Rightarrow> int \<Rightarrow> (Status \<times> ZPMetaServer) outcome" where
  "Distribute_placement s num =
     (case GetAllNode s of ((st, nodes), s1) \<Rightarrow>
        if \<not> ok st then Returns (st, s1)
        else (let t_alive_nodes = GetAllAliveNode nodes [] in
          if t_alive_nodes = [] then Returns (Corruption ''no nodes'', s1)
          else (case Reorganize t_alive_nodes [] of
                  None \<Rightarrow> Diverges
                | Some alive_nodes \<Rightarrow>
                   (case Distribute_for alive_nodes num 0 [] s1 of (st2, infos, s2) \<Rightarrow>
                      if \<not> ok st2 then Returns (st2, s2)
                      else (case SetMSInfo s2 \<lparr>version = version_m s2 + 1, info = infos\<rparr> of
                              (st3, s3) \<Rightarrow>
                        (let s4 = (if ok st3 then s3\<lparr>version_m := version_m s3 + 1\<rparr> else s3)
                         in case floyd_Write (floyd_m s4) ZP_META_KEY_PN (Text (to_string num)) of
                              (fs, f') \<Rightarrow>
                                Returns (if fs = FOk then OK else Corruption ''floyd set error!'',
                                         s4\<lparr>floyd_m := f'\<rparr>)))))))"

definition Distribute :: "ZPMetaServer \<Rightarrow> int \<Rightarrow> (Status \<times> ZPMetaServer) outcome" where
  "Distribute s num =
     (case PartitionNums s of
        (None, s0) \<Rightarrow> Throws
      | (Some pn, s0) \<Rightarrow>
          if pn \<noteq> 0 then Returns (Corruption ''Already Distribute'', s0)
          else Distribute_placement s0 num)"

subsection \<open>InitVersion\<close>

text \<open>
  The read is repeated until it succeeds. A value that does not parse leaves the cleared
  message, whose version is zero.
\<close>

partial_function (option) InitVersion :: "ZPMetaServer \<Rightarrow> (Status \<times> ZPMetaServer) option" where
  "InitVersion s =
     (case floyd_Read (floyd_m s) ZP_META_KEY_MT of ((fs, v), f') \<Rightarrow>
        if fs = FOk then
          (if v = Text [] then Some (OK, s\<lparr>floyd_m := f', version_m := - 1\<rparr>)
           else Some (OK, s\<lparr>floyd_m := f',
                              version_m := (case v of PullBytes t \<Rightarrow> version t | _ \<Rightarrow> 0)\<rparr>))
        else InitVersion (s\<lparr>floyd_m := f'\<rparr>))"

declare InitVersion.simps [code]

subsection \<open>Liveness\<close>

text \<open>
  \<open>slash::ParseIpPortString\<close> and \<open>slash::IpPortString\<close> belong to an external library and
  are parameters, as are the clock (\<open>now\<close>, in seconds) and the timeout constant.
\<close>

definition AddNodeAlive ::
  "(string \<Rightarrow> (string \<times> int) option) \<Rightarrow> ZPMetaServer \<Rightarrow> string \<Rightarrow> int \<Rightarrow> Status \<times> ZPMetaServer" where
  "AddNodeAlive ParseIpPortString s ip_port now =
     (let s1 = s\<lparr>node_alive_m := map_set ip_port now (node_alive_m s)\<rparr> in
      case ParseIpPortString ip_port of
        None \<Rightarrow> (Corruption ''parse ip_port error'', s1)
      | Some (ip0, port0) \<Rightarrow>
          (case AddNode s1 ip0 port0 of (st, s2) \<Rightarrow>
             if \<not> ok st then (st, s2)
             else (OK, s2\<lparr>update_thread_m := update_thread_m s2 @ [(ip_port, kOpAdd)]\<rparr>)))"

definition CheckNodeAlive :: "int \<Rightarrow> ZPMetaServer \<Rightarrow> int \<Rightarrow> ZPMetaServer" where
  "CheckNodeAlive kNodeMetaTimeoutM s now =
     (let need_remove = map fst (filter (\<lambda>(k, t). now - t > kNodeMetaTimeoutM) (node_alive_m s))
      in s\<lparr>node_alive_m := filter (\<lambda>(k, t). k \<notin> set need_remove) (node_alive_m s),
            update_thread_m := update_thread_m s @ map (\<lambda>k. (k, kOpRemove)) need_remove\<rparr>)"

definition UpdateNodeAlive :: "ZPMetaServer \<Rightarrow> string \<Rightarrow> int \<Rightarrow> bool \<times> ZPMetaServer" where
  "UpdateNodeAlive s ip_port now =
     (if map_of (node_alive_m s) ip_port = None then (False, s)
      else (True, s\<lparr>node_alive_m := map_set ip_port now (node_alive_m s)\<rparr>))"

definition RestoreNodeAlive ::
  "(string \<Rightarrow> int \<Rightarrow> string) \<Rightarrow> ZPMetaServer \<Rightarrow> NodeStatus list \<Rightarrow> int \<Rightarrow> ZPMetaServer" where
  "RestoreNodeAlive IpPortString s alive_nodes now =
     s\<lparr>node_alive_m :=
         foldl (\<lambda>m ns. map_set (IpPortString (ip (node ns)) (port (node ns))) now m) [] alive_nodes\<rparr>"

section \<open>Notions used by the properties\<close>

text \<open>
  The writes of the partitions table in the history of the store, each with its value and
  whether it succeeded.
\<close>

definition mt_writes :: "ZPMetaServer \<Rightarrow> (bytes \<times> bool) list" where
  "mt_writes s = map snd (filter (\<lambda>w. fst w = ZP_META_KEY_MT) (wlog (floyd_m s)))"

text \<open>Two states of the server that differ at most in the failure schedule still to come.\<close>

definition unchanged :: "ZPMetaServer \<Rightarrow> ZPMetaServer \<Rightarrow> bool" where
  "unchanged s s' \<longleftrightarrow>
     kv (floyd_m s') = kv (floyd_m s) \<and> wlog (floyd_m s') = wlog (floyd_m s) \<and>
     version_m s' = version_m s \<and> node_alive_m s' = node_alive_m s \<and>
     update_thread_m s' = update_thread_m s"

text \<open>The test of \<open>OffNode\<close> on the master of a partition.\<close>

definition is_master_of :: "string \<Rightarrow> int \<Rightarrow> Partitions \<Rightarrow> bool" where
  "is_master_of ip0 port0 p \<longleftrightarrow> ip (master p) = ip0 \<and> port (master p) = port0"

text \<open>
  No write of the table was issued, and neither the stored table nor the cached version
  changed.
\<close>

definition mt_unchanged :: "ZPMetaServer \<Rightarrow> ZPMetaServer \<Rightarrow> bool" where
  "mt_unchanged s s' \<longleftrightarrow>
     mt_writes s' = mt_writes s \<and> version_m s' = version_m s \<and>
     kv (floyd_m s') ZP_META_KEY_MT = kv (floyd_m s) ZP_META_KEY_MT"

text \<open>
  One write of the table \<open>t\<close> was issued, with the cached version plus one as its version; \<open>b\<close>
  says whether it succeeded, and the cached version follows it.
\<close>

definition mt_written :: "ZPMetaServer \<Rightarrow> MetaCmdResponse_Pull \<Rightarrow> bool \<Rightarrow> ZPMetaServer \<Rightarrow> bool" where
  "mt_written s t b s' \<longleftrightarrow>
     mt_writes s' = mt_writes s @ [(PullBytes t, b)] \<and>
     version t = version_m s + 1 \<and>
     (if b then version_m s' = version_m s + 1 \<and>
                kv (floyd_m s') ZP_META_KEY_MT = Some (PullBytes t)
      else version_m s' = version_m s \<and>
           kv (floyd_m s') ZP_META_KEY_MT = kv (floyd_m s) ZP_META_KEY_MT)"

text \<open>What a rewrite of the table by \<open>OnNode\<close> or \<open>OffNode\<close> leaves behind.\<close>

definition rewritten ::
  "ZPMetaServer \<Rightarrow> Partitions list \<Rightarrow> Status \<Rightarrow> ZPMetaServer \<Rightarrow> bool" where
  "rewritten s infos st s' \<longleftrightarrow>
     (let t' = \<lparr>version = version_m s + 1, info = infos\<rparr> in
      node_alive_m s' = node_alive_m s \<and> update_thread_m s' = update_thread_m s \<and>
      (if st = OK then
         kv (floyd_m s') = (kv (floyd_m s))(ZP_META_KEY_MT \<mapsto> PullBytes t') \<and>
         wlog (floyd_m s') = wlog (floyd_m s) @ [(ZP_META_KEY_MT, PullBytes t', True)] \<and>
         version_m s' = version_m s + 1
       else
         kv (floyd_m s') = kv (floyd_m s) \<and>
         wlog (floyd_m s') = wlog (floyd_m s) @ [(ZP_META_KEY_MT, PullBytes t', False)] \<and>
         version_m s' = version_m s))"

text \<open>The three operations that write the partitions table.\<close>

datatype topology_op = Op_Distribute int | Op_OffNode string int | Op_OnNode string int

fun run_op :: "topology_op \<Rightarrow> ZPMetaServer \<Rightarrow> (Status \<times> ZPMetaServer) outcome" where
  "run_op (Op_Distribute num) s = Distribute s num"
| "run_op (Op_OffNode ip0 port0) s = Returns (OffNode s ip0 port0)"
| "run_op (Op_OnNode ip0 port0) s = Returns (OnNode s ip0 port0)"

text \<open>A node is in the set of nodes that are up, as \<open>GetAllAliveNode\<close> computes it.\<close>

definition up_in :: "Nodes \<Rightarrow> Node \<Rightarrow> bool" where
  "up_in nodes n \<longleftrightarrow> (\<exists>ns\<in>set nodes. status ns = 0 \<and> node ns = n)"

text \<open>The nodes table as the store holds it.\<close>

definition persisted_nodes :: "ZPMetaServer \<Rightarrow> Nodes" where
  "persisted_nodes s =
     (case kv (floyd_m s) ZP_META_KEY_ND of Some (NodesBytes ns) \<Rightarrow> ns | _ \<Rightarrow> [])"

text \<open>
  Every endpoint string of the liveness map has an entry of the stored nodes table that is up
  and that it stands for: the string parses to the entry's ip and port, or it is the string
  made from them.
\<close>

definition liveness_ok ::
  "(string \<Rightarrow> (string \<times> int) option) \<Rightarrow> (string \<Rightarrow> int \<Rightarrow> string) \<Rightarrow> ZPMetaServer \<Rightarrow> bool" where
  "liveness_ok ParseIpPortString IpPortString s \<longleftrightarrow>
     (\<forall>k\<in>fst ` set (node_alive_m s).
        \<exists>ns\<in>set (persisted_nodes s).
          status ns = 0 \<and>
          (ParseIpPortString k = Some (ip (node ns), port (node ns)) \<or>
           k = IpPortString (ip (node ns)) (port (node ns))))"

text \<open>
  A sequence of \<open>INIT\<close> commands: the calls of \<open>Distribute\<close> one after the other, with the
  statuses they return.
\<close>

fun Distribute_seq :: "ZPMetaServer \<Rightarrow> int list \<Rightarrow> (Status list \<times> ZPMetaServer) outcome" where
  "Distribute_seq s [] = Returns ([], s)"
| "Distribute_seq s (num # nums) =
     (case Distribute s num of
        Returns (st, s') \<Rightarrow>
          (case Distribute_seq s' nums of
             Returns (sts, s'') \<Rightarrow> Returns (st # sts, s'')
           | Throws \<Rightarrow> Throws
           | Diverges \<Rightarrow> Diverges)
      | Throws \<Rightarrow> Throws
      | Diverges \<Rightarrow> Diverges)"

text \<open>The value of a call that returns.\<close>

definition returned :: "'a outcome \<Rightarrow> 'a option" where
  "returned r = (case r of Returns x \<Rightarrow> Some x | _ \<Rightarrow> None)"

subsection \<open>States of the scenarios\<close>

definition ex_node :: "string \<Rightarrow> Node" where
  "ex_node a = \<lparr>ip = a, port = 5000\<rparr>"

definition ex_up :: "string \<Rightarrow> NodeStatus" where
  "ex_up a = \<lparr>node = ex_node a, status = 0\<rparr>"

definition ex_server :: "(string \<times> bytes) list \<Rightarrow> bool list \<Rightarrow> int \<Rightarrow> ZPMetaServer" where
  "ex_server m fl v =
     \<lparr>floyd_m = \<lparr>kv = map_of m, faults = fl, wlog = []\<rparr>, version_m = v,
      node_alive_m = [], update_thread_m = []\<rparr>"

text \<open>A table at version 3 whose only partition has lost its master and keeps one slave.\<close>

definition ex_orphan_table :: MetaCmdResponse_Pull where
  "ex_orphan_table =
     \<lparr>version = 3,
      info = [\<lparr>p_id = 0, master = \<lparr>ip = [], port = 0\<rparr>, slaves = [ex_node ''10.0.0.1'']\<rparr>]\<rparr>"

definition ex_orphan :: ZPMetaServer where
  "ex_orphan = ex_server [(ZP_META_KEY_MT, PullBytes ex_orphan_table)] [] 3"

definition ex_promoted_table :: MetaCmdResponse_Pull where
  "ex_promoted_table =
     \<lparr>version = 4, info = [\<lparr>p_id = 0, master = ex_node ''10.0.0.1'', slaves = []\<rparr>]\<rparr>"

definition ex_promoted :: ZPMetaServer where
  "ex_promoted =
     \<lparr>floyd_m =
        \<lparr>kv = (map_of [(ZP_META_KEY_MT, PullBytes ex_orphan_table)])
                 (ZP_META_KEY_MT \<mapsto> PullBytes ex_promoted_table),
         faults = [],
         wlog = [(ZP_META_KEY_MT, PullBytes ex_promoted_table, True)]\<rparr>,
      version_m = 4, node_alive_m = [], update_thread_m = []\<rparr>"

text \<open>
  Three nodes up; one partition led by the second node and one without a master, neither
  with the first node in any role but that of a slave of the led partition.
\<close>

definition ex_steady_table :: MetaCmdResponse_Pull where
  "ex_steady_table =
     \<lparr>version = 0,
      info = [\<lparr>p_id = 0, master = ex_node ''10.0.0.2'',
               slaves = [ex_node ''10.0.0.3'', ex_node ''10.0.0.1'']\<rparr>,
              \<lparr>p_id = 1, master = \<lparr>ip = [], port = 0\<rparr>, slaves = [ex_node ''10.0.0.3'']\<rparr>]\<rparr>"

definition ex_steady :: ZPMetaServer where
  "ex_steady = ex_server
     [(ZP_META_KEY_ND, NodesBytes [ex_up ''10.0.0.1'', ex_up ''10.0.0.2'', ex_up ''10.0.0.3'']),
      (ZP_META_KEY_MT, PullBytes ex_steady_table)]
     [] 0"

text \<open>Three nodes on three hosts have joined; nothing else is stored.\<close>

definition ex_three_hosts :: ZPMetaServer where
  "ex_three_hosts = ex_server
     [(ZP_META_KEY_ND, NodesBytes [ex_up ''10.0.0.1'', ex_up ''10.0.0.2'', ex_up ''10.0.0.3''])]
     [] 7"

definition ex_down :: "string \<Rightarrow> NodeStatus" where
  "ex_down a = \<lparr>node = ex_node a, status = 1\<rparr>"

text \<open>A partition without a master whose first slave is the endpoint that returns.\<close>

definition ex_orphan3_table :: MetaCmdResponse_Pull where
  "ex_orphan3_table =
     \<lparr>version = 3,
      info = [\<lparr>p_id = 0, master = \<lparr>ip = [], port = 0\<rparr>,
               slaves = [ex_node ''10.0.0.1'', ex_node ''10.0.0.2'', ex_node ''10.0.0.3'']\<rparr>]\<rparr>"

definition ex_orphan3 :: ZPMetaServer where
  "ex_orphan3 = ex_server [(ZP_META_KEY_MT, PullBytes ex_orphan3_table)] [] 3"

text \<open>A partition led by the first node; of its slaves the second node is down.\<close>

definition ex_led_nodes :: Nodes where
  "ex_led_nodes = [ex_up ''10.0.0.1'', ex_down ''10.0.0.2'', ex_up ''10.0.0.3'']"

definition ex_led_table :: MetaCmdResponse_Pull where
  "ex_led_table =
     \<lparr>version = 0,
      info = [\<lparr>p_id = 0, master = ex_node ''10.0.0.1'',
               slaves = [ex_node ''10.0.0.2'', ex_node ''10.0.0.3'']\<rparr>]\<rparr>"

definition ex_led :: ZPMetaServer where
  "ex_led = ex_server
     [(ZP_META_KEY_ND, NodesBytes ex_led_nodes), (ZP_META_KEY_MT, PullBytes ex_led_table)] [] 0"

text \<open>A cluster of one node, which is the master and both slaves of its partition.\<close>

definition ex_single_table :: MetaCmdResponse_Pull where
  "ex_single_table =
     \<lparr>version = 0,
      info = [\<lparr>p_id = 0, master = ex_node ''10.0.0.1'',
               slaves = [ex_node ''10.0.0.1'', ex_node ''10.0.0.1'']\<rparr>]\<rparr>"

definition ex_single :: ZPMetaServer where
  "ex_single = ex_server
     [(ZP_META_KEY_ND, NodesBytes [ex_up ''10.0.0.1'']),
      (ZP_META_KEY_MT, PullBytes ex_single_table)] [] 0"

text \<open>Five nodes up, four of them on one host.\<close>

definition ex_up_at :: "string \<Rightarrow> int \<Rightarrow> NodeStatus" where
  "ex_up_at a p = \<lparr>node = \<lparr>ip = a, port = p\<rparr>, status = 0\<rparr>"

definition ex_uneven :: "NodeStatus list" where
  "ex_uneven =
     [ex_up_at ''10.0.0.1'' 5001, ex_up_at ''10.0.0.1'' 5002, ex_up_at ''10.0.0.1'' 5003,
      ex_up_at ''10.0.0.1'' 5004, ex_up_at ''10.0.0.2'' 5001]"

text \<open>Four nodes up, two of them on the first of three hosts.\<close>

definition ex_stuck :: "NodeStatus list" where
  "ex_stuck =
     [ex_up_at ''10.0.0.1'' 5001, ex_up_at ''10.0.0.1'' 5002, ex_up_at ''10.0.0.2'' 5001,
      ex_up_at ''10.0.0.3'' 5001]"

text \<open>The table that the first \<open>INIT\<close> with four partitions writes for three hosts.\<close>

definition ex_bootstrap_table :: MetaCmdResponse_Pull where
  "ex_bootstrap_table =
     \<lparr>version = 0,
      info =
        [\<lparr>p_id = 0, master = ex_node ''10.0.0.1'',
           slaves = [ex_node ''10.0.0.2'', ex_node ''10.0.0.3'']\<rparr>,
         \<lparr>p_id = 1, master = ex_node ''10.0.0.2'',
           slaves = [ex_node ''10.0.0.3'', ex_node ''10.0.0.1'']\<rparr>,
         \<lparr>p_id = 2, master = ex_node ''10.0.0.3'',
           slaves = [ex_node ''10.0.0.1'', ex_node ''10.0.0.2'']\<rparr>,
         \<lparr>p_id = 3, master = ex_node ''10.0.0.1'',
           slaves = [ex_node ''10.0.0.2'', ex_node ''10.0.0.3'']\<rparr>]\<rparr>"

text \<open>
  One node up and a schedule in which the fourth call of the store fails: the two reads and
  the write of the replica set succeed, the write of the table does not.
\<close>

definition ex_mt_write_fails :: ZPMetaServer where
  "ex_mt_write_fails = ex_server
     [(ZP_META_KEY_ND, NodesBytes [ex_up ''10.0.0.1''])] [False, False, False, True] (- 1)"

text \<open>A nodes table whose only node is down.\<close>

definition ex_all_down :: ZPMetaServer where
  "ex_all_down = ex_server [(ZP_META_KEY_ND, NodesBytes [ex_down ''10.0.0.1''])] [] (- 1)"

text \<open>
  Stand-ins for the two helpers of the external library in the scenarios: an endpoint string
  is the ip, a colon and the decimal port.
\<close>

definition ex_IpPortString :: "string \<Rightarrow> int \<Rightarrow> string" where
  "ex_IpPortString a p = a @ '':'' @ to_string p"

definition ex_ParseIpPortString :: "string \<Rightarrow> (string \<times> int) option" where
  "ex_ParseIpPortString k =
     (if CHR '':'' \<in> set k then
        (case stoi (tl (dropWhile (\<lambda>c. c \<noteq> CHR '':'') k)) of
           None \<Rightarrow> None
         | Some p \<Rightarrow> Some (takeWhile (\<lambda>c. c \<noteq> CHR '':'') k, p))
      else None)"

text \<open>One node has joined and is alive; a second one is about to join.\<close>

definition ex_joined :: ZPMetaServer where
  "ex_joined =
     (ex_server [(ZP_META_KEY_ND, NodesBytes [ex_up ''10.0.0.1''])] [] 0)
       \<lparr>node_alive_m := [(''10.0.0.1:5000'', 90)]\<rparr>"

text \<open>An empty store whose second call, the write of the nodes table, fails.\<close>

definition ex_join_write_fails :: ZPMetaServer where
  "ex_join_write_fails = ex_server [] [False, True] (- 1)"

text \<open>
  Three nodes up on three hosts, written to the nodes table in another order than that of
  their hosts, and a fourth node that is down.
\<close>

definition ex_unordered_nodes :: Nodes where
  "ex_unordered_nodes =
     [ex_up ''10.0.0.3'', ex_down ''10.0.0.4'', ex_up ''10.0.0.1'', ex_up ''10.0.0.2'']"

definition ex_unordered :: ZPMetaServer where
  "ex_unordered = ex_server [(ZP_META_KEY_ND, NodesBytes ex_unordered_nodes)] [] 7"

text \<open>The four nodes of which two are on the first host, all up, and nothing else stored.\<close>

definition ex_four_nodes :: ZPMetaServer where
  "ex_four_nodes = ex_server [(ZP_META_KEY_ND, NodesBytes ex_stuck)] [] (- 1)"

text \<open>Six nodes up on four hosts, three of them on the first host.\<close>

definition ex_never :: "NodeStatus list" where
  "ex_never =
     [ex_up_at ''10.0.0.1'' 5001, ex_up_at ''10.0.0.1'' 5002, ex_up_at ''10.0.0.1'' 5003,
      ex_up_at ''10.0.0.2'' 5001, ex_up_at ''10.0.0.3'' 5001, ex_up_at ''10.0.0.4'' 5001]"

section \<open>Effects of the store and of the operations\<close>

lemma unchanged_refl: "unchanged s s"
  by (simp add: unchanged_def)

lemma unchanged_trans: "unchanged s s1 \<Longrightarrow> unchanged s1 s2 \<Longrightarrow> unchanged s s2"
  by (simp add: unchanged_def)

lemma next_fault_frame: "next_fault f = (b, f') \<Longrightarrow> kv f' = kv f \<and> wlog f' = wlog f"
  by (auto simp: next_fault_def split: list.splits)

lemma DirtyRead_frame:
  "floyd_DirtyRead f k = (r, f') \<Longrightarrow> kv f' = kv f \<and> wlog f' = wlog f"
  by (auto simp: floyd_DirtyRead_def split: prod.splits if_splits option.splits dest: next_fault_frame)

lemma DirtyRead_ok:
  "floyd_DirtyRead f k = ((FOk, v), f') \<Longrightarrow> kv f k = Some v"
  by (auto simp: floyd_DirtyRead_def split: prod.splits if_splits option.splits)

lemma Write_cases:
  "floyd_Write f k v = (fs, f') \<Longrightarrow>
     (fs = FOk \<and> kv f' = (kv f)(k \<mapsto> v) \<and> wlog f' = wlog f @ [(k, v, True)]) \<or>
     (fs = FErr \<and> kv f' = kv f \<and> wlog f' = wlog f @ [(k, v, False)])"
  by (auto simp: floyd_Write_def split: prod.splits if_splits dest: next_fault_frame)

lemma GetAllNode_frame: "GetAllNode s = (r, s') \<Longrightarrow> unchanged s s'"
  by (auto simp: GetAllNode_def unchanged_def split: prod.splits dest: DirtyRead_frame)

lemma GetAllNode_ok:
  "GetAllNode s = ((OK, nodes), s') \<Longrightarrow> kv (floyd_m s) ZP_META_KEY_ND = Some (NodesBytes nodes)"
  by (auto simp: GetAllNode_def split: prod.splits if_splits bytes.splits dest: DirtyRead_ok)

lemma GetMSInfo_frame: "GetMSInfo s = (r, s') \<Longrightarrow> unchanged s s'"
  by (auto simp: GetMSInfo_def unchanged_def split: prod.splits dest: DirtyRead_frame)

lemma GetMSInfo_ok:
  "GetMSInfo s = ((OK, t), s') \<Longrightarrow> kv (floyd_m s) ZP_META_KEY_MT = Some (PullBytes t)"
  by (auto simp: GetMSInfo_def split: prod.splits if_splits bytes.splits dest: DirtyRead_ok)

lemma PartitionNums_frame: "PartitionNums s = (r, s') \<Longrightarrow> unchanged s s'"
  by (auto simp: PartitionNums_def unchanged_def split: prod.splits dest: DirtyRead_frame)

lemma OffNode_for_snd:
  "snd (OffNode_for a ip0 port0 ps) = map (\<lambda>p. snd (OffNode_partition a ip0 port0 p)) ps"
  by (induction ps) (auto split: prod.splits)

lemma OffNode_for_fst:
  "fst (OffNode_for a ip0 port0 ps) \<longleftrightarrow> (\<exists>p\<in>set ps. is_master_of ip0 port0 p)"
  by (induction ps) (auto simp: OffNode_partition_def is_master_of_def Let_def split: prod.splits option.splits)

lemma OnNode_for_snd:
  "snd (OnNode_for ip0 port0 ps) = map (\<lambda>p. snd (OnNode_partition ip0 port0 p)) ps"
  by (induction ps) (auto split: prod.splits)

lemma OnNode_for_fst:
  "fst (OnNode_for ip0 port0 ps) \<longleftrightarrow> (\<exists>p\<in>set ps. fst (OnNode_partition ip0 port0 p))"
  by (induction ps) (auto split: prod.splits)

lemma first_index_None: "first_index P xs = None \<longleftrightarrow> (\<forall>x\<in>set xs. \<not> P x)"
  by (induction xs) auto

lemma first_index_Some:
  "first_index P xs = Some j \<longleftrightarrow> j < length xs \<and> P (xs ! j) \<and> (\<forall>k<j. \<not> P (xs ! k))"
proof (induction xs arbitrary: j)
  case Nil
  then show ?case by simp
next
  case (Cons x xs)
  show ?case
  proof (cases "P x")
    case True
    then show ?thesis by (cases j) auto
  next
    case False
    show ?thesis
    proof (cases j)
      case 0
      with False show ?thesis by auto
    next
      case (Suc n)
      with False Cons.IH [of n] show ?thesis
        by (auto simp: less_Suc_eq_0_disj)
    qed
  qed
qed

lemma unchanged_mt: "unchanged s s' \<Longrightarrow> mt_unchanged s s'"
  by (simp add: unchanged_def mt_unchanged_def mt_writes_def)

lemma mt_unchanged_trans: "mt_unchanged s s1 \<Longrightarrow> mt_unchanged s1 s2 \<Longrightarrow> mt_unchanged s s2"
  by (simp add: mt_unchanged_def)

lemma mt_unchanged_written:
  "mt_unchanged s s1 \<Longrightarrow> mt_written s1 t b s2 \<Longrightarrow> mt_written s t b s2"
  by (simp add: mt_unchanged_def mt_written_def)

lemma mt_written_unchanged:
  "mt_written s t b s1 \<Longrightarrow> mt_unchanged s1 s2 \<Longrightarrow> mt_written s t b s2"
  by (simp add: mt_unchanged_def mt_written_def)

lemma Write_other_key:
  assumes "floyd_Write (floyd_m s) k v = (fs, f')" and "k \<noteq> ZP_META_KEY_MT"
  shows "mt_unchanged s (s\<lparr>floyd_m := f'\<rparr>)"
  using Write_cases [OF assms(1)] assms(2)
  by (auto simp: mt_unchanged_def mt_writes_def)

lemma SetMSInfo_cases:
  assumes "SetMSInfo s t = (st, s')"
  shows "(st = OK \<and> kv (floyd_m s') = (kv (floyd_m s))(ZP_META_KEY_MT \<mapsto> PullBytes t) \<and>
           wlog (floyd_m s') = wlog (floyd_m s) @ [(ZP_META_KEY_MT, PullBytes t, True)] \<or>
          st \<noteq> OK \<and> kv (floyd_m s') = kv (floyd_m s) \<and>
           wlog (floyd_m s') = wlog (floyd_m s) @ [(ZP_META_KEY_MT, PullBytes t, False)]) \<and>
         version_m s' = version_m s \<and> node_alive_m s' = node_alive_m s \<and>
         update_thread_m s' = update_thread_m s"
proof -
  obtain fs f' where w: "floyd_Write (floyd_m s) ZP_META_KEY_MT (PullBytes t) = (fs, f')"
    by (cases "floyd_Write (floyd_m s) ZP_META_KEY_MT (PullBytes t)")
  from assms w have "s' = s\<lparr>floyd_m := f'\<rparr>" and "st = (if fs = FOk then OK else Corruption ''floyd set error!'')"
    by (auto simp: SetMSInfo_def Set_def)
  with Write_cases [OF w] show ?thesis by auto
qed

lemma rewritten_mt_written:
  "rewritten s infos st s' \<Longrightarrow>
     mt_written s \<lparr>version = version_m s + 1, info = infos\<rparr> (st = OK) s'"
  by (auto simp: rewritten_def mt_written_def mt_writes_def Let_def split: if_splits)

lemma unchanged_rewritten:
  "unchanged s s1 \<Longrightarrow> rewritten s1 infos st s2 \<Longrightarrow> rewritten s infos st s2"
  by (auto simp: unchanged_def rewritten_def Let_def split: if_splits)

lemma OnNode_cases:
  assumes "OnNode s ip0 port0 = (st, s')"
  shows "(unchanged s s' \<and>
           (st = OK \<longrightarrow> (\<forall>t. kv (floyd_m s) ZP_META_KEY_MT = Some (PullBytes t) \<longrightarrow>
                            \<not> fst (OnNode_for ip0 port0 (info t))))) \<or>
         (\<exists>t. kv (floyd_m s) ZP_META_KEY_MT = Some (PullBytes t) \<and>
               fst (OnNode_for ip0 port0 (info t)) \<and>
               rewritten s (snd (OnNode_for ip0 port0 (info t))) st s')"
proof -
  obtain fs t s1 where g: "GetMSInfo s = ((fs, t), s1)"
    by (metis prod.exhaust)
  note u1 = GetMSInfo_frame [OF g]
  show ?thesis
  proof (cases "fs = OK")
    case False
    with assms g u1 show ?thesis by (auto simp: OnNode_def ok_def)
  next
    case True
    with g have mt: "kv (floyd_m s) ZP_META_KEY_MT = Some (PullBytes t)"
      by (auto dest: GetMSInfo_ok)
    obtain c infos where f: "OnNode_for ip0 port0 (info t) = (c, infos)"
      by (metis prod.exhaust)
    show ?thesis
    proof (cases c)
      case False
      with assms g True f u1 mt show ?thesis by (auto simp: OnNode_def ok_def)
    next
      case c: True
      obtain st2 s2 where w: "SetMSInfo s1 \<lparr>version = version_m s1 + 1, info = infos\<rparr> = (st2, s2)"
        by (metis prod.exhaust)
      from assms g True f c w
      have res: "st = st2" "s' = (if st2 = OK then s2\<lparr>version_m := version_m s2 + 1\<rparr> else s2)"
        by (auto simp: OnNode_def ok_def split: if_splits)
      from SetMSInfo_cases [OF w] res have "rewritten s1 infos st s'"
        by (auto simp: rewritten_def Let_def)
      with u1 have "rewritten s infos st s'" by (rule unchanged_rewritten)
      with mt f c show ?thesis by auto
    qed
  qed
qed

lemma key_distinct:
  "ZP_META_KEY_ND \<noteq> ZP_META_KEY_MT" "ZP_META_KEY_PN \<noteq> ZP_META_KEY_MT"
  "PartitionId2Key i \<noteq> ZP_META_KEY_MT" "ZP_META_KEY_MT \<noteq> ZP_META_KEY_ND"
  "ZP_META_KEY_PN \<noteq> ZP_META_KEY_ND" "PartitionId2Key i \<noteq> ZP_META_KEY_ND"
  "PartitionId2Key i \<noteq> ZP_META_KEY_PN" "ZP_META_KEY_MT \<noteq> ZP_META_KEY_PN"
  "ZP_META_KEY_ND \<noteq> ZP_META_KEY_PN"
  by (simp_all add: ZP_META_KEY_ND_def ZP_META_KEY_MT_def ZP_META_KEY_PN_def
        PartitionId2Key_def ZP_META_KEY_PREFIX_def)

lemma SetNodeStatus_down:
  assumes "SetNodeStatus s nodes ip0 port0 kNodeDown = (st, s')"
  shows "mt_unchanged s s' \<and> node_alive_m s' = node_alive_m s \<and>
         update_thread_m s' = update_thread_m s"
proof (cases "first_index (\<lambda>ns. ip0 = ip (node ns) \<and> port0 = port (node ns)) nodes")
  case None
  with assms show ?thesis
    by (auto simp: SetNodeStatus_def mt_unchanged_def)
next
  case (Some i)
  show ?thesis
  proof (cases "status (nodes ! i) = kNodeDown")
    case True
    with assms Some show ?thesis
      by (auto simp: SetNodeStatus_def mt_unchanged_def)
  next
    case False
    obtain fs f' where w: "floyd_Write (floyd_m s) ZP_META_KEY_ND
        (NodesBytes (nodes[i := (nodes ! i)\<lparr>status := kNodeDown\<rparr>])) = (fs, f')"
      by (metis prod.exhaust)
    from assms Some False w have "s' = s\<lparr>floyd_m := f'\<rparr>"
      by (auto simp: SetNodeStatus_def kNodeUp_def kNodeDown_def split: if_splits)
    with Write_other_key [OF w key_distinct(1)] show ?thesis by simp
  qed
qed

lemma OffNode_cases:
  assumes "OffNode s ip0 port0 = (st, s')"
  shows "(mt_unchanged s s' \<and>
           (st = OK \<longrightarrow> (\<forall>t. kv (floyd_m s) ZP_META_KEY_MT = Some (PullBytes t) \<longrightarrow>
                            \<not> (\<exists>p\<in>set (info t). is_master_of ip0 port0 p)))) \<or>
         (\<exists>t nodes s3.
            kv (floyd_m s) ZP_META_KEY_MT = Some (PullBytes t) \<and>
            kv (floyd_m s) ZP_META_KEY_ND = Some (NodesBytes nodes) \<and>
            (\<exists>p\<in>set (info t). is_master_of ip0 port0 p) \<and>
            mt_unchanged s s3 \<and>
            rewritten s3
              (map (\<lambda>p. snd (OffNode_partition (GetAllAliveNode nodes []) ip0 port0 p)) (info t))
              st s')"
proof -
  obtain st1 nodes s1 where g: "GetAllNode s = ((st1, nodes), s1)"
    by (metis prod.exhaust)
  note u1 = unchanged_mt [OF GetAllNode_frame [OF g]]
  show ?thesis
  proof (cases "st1 = OK")
    case False
    with assms g u1 show ?thesis by (auto simp: OffNode_def ok_def)
  next
    case st1: True
    with g have nd: "kv (floyd_m s) ZP_META_KEY_ND = Some (NodesBytes nodes)"
      by (auto dest: GetAllNode_ok)
    obtain st2 s2 where sn: "SetNodeStatus s1 nodes ip0 port0 kNodeDown = (st2, s2)"
      by (metis prod.exhaust)
    from SetNodeStatus_down [OF sn] u1 have u2: "mt_unchanged s s2"
      by (auto intro: mt_unchanged_trans)
    show ?thesis
    proof (cases "st2 = OK")
      case False
      with assms g st1 sn u2 show ?thesis by (auto simp: OffNode_def ok_def Let_def)
    next
      case st2: True
      obtain st3 t s3 where gm: "GetMSInfo s2 = ((st3, t), s3)"
        by (metis prod.exhaust)
      from unchanged_mt [OF GetMSInfo_frame [OF gm]] u2 have u3: "mt_unchanged s s3"
        by (auto intro: mt_unchanged_trans)
      show ?thesis
      proof (cases "st3 = OK")
        case False
        with assms g st1 sn st2 gm u3 show ?thesis by (auto simp: OffNode_def ok_def Let_def)
      next
        case st3: True
        with gm have "kv (floyd_m s2) ZP_META_KEY_MT = Some (PullBytes t)"
          by (auto dest: GetMSInfo_ok)
        with u2 have mt: "kv (floyd_m s) ZP_META_KEY_MT = Some (PullBytes t)"
          by (simp add: mt_unchanged_def)
        let ?alive = "GetAllAliveNode nodes []"
        obtain c infos where f: "OffNode_for ?alive ip0 port0 (info t) = (c, infos)"
          by (metis prod.exhaust)
        from f OffNode_for_fst [of ?alive ip0 port0 "info t"]
        have c: "c \<longleftrightarrow> (\<exists>p\<in>set (info t). is_master_of ip0 port0 p)" by simp
        from f OffNode_for_snd [of ?alive ip0 port0 "info t"]
        have infos: "infos = map (\<lambda>p. snd (OffNode_partition ?alive ip0 port0 p)) (info t)"
          by simp
        show ?thesis
        proof (cases c)
          case False
          with assms g st1 sn st2 gm st3 f have "st = OK" "s' = s3"
            by (auto simp: OffNode_def ok_def Let_def)
          with u3 mt c False show ?thesis by auto
        next
          case True
          obtain st4 s4 where w: "SetMSInfo s3 \<lparr>version = version_m s3 + 1, info = infos\<rparr> = (st4, s4)"
            by (metis prod.exhaust)
          from assms g st1 sn st2 gm st3 f True w
          have res: "st = st4" "s' = (if st4 = OK then s4\<lparr>version_m := version_m s4 + 1\<rparr> else s4)"
            by (auto simp: OffNode_def ok_def Let_def split: if_splits)
          from SetMSInfo_cases [OF w] res have "rewritten s3 infos st s'"
            by (auto simp: rewritten_def Let_def)
          with mt nd c True u3 infos show ?thesis by blast
        qed
      qed
    qed
  qed
qed

lemma Distribute_for_frame:
  "Distribute_for alive num i infos s = (st, infos', s') \<Longrightarrow>
     mt_unchanged s s' \<and> kv (floyd_m s') ZP_META_KEY_PN = kv (floyd_m s) ZP_META_KEY_PN"
proof (induction alive num i infos s rule: Distribute_for.induct)
  case (1 alive num i infos s)
  show ?case
  proof (cases "i < num")
    case False
    with "1.prems" show ?thesis
      by (subst (asm) Distribute_for.simps) (simp add: mt_unchanged_def)
  next
    case True
    let ?an = "int (length alive)"
    let ?n0 = "node (alive ! nat (i mod ?an))"
    let ?n1 = "node (alive ! nat ((i + 1) mod ?an))"
    let ?n2 = "node (alive ! nat ((i + 2) mod ?an))"
    let ?rs = "\<lparr>rs_id = nat i, rs_node = [?n0, ?n1, ?n2]\<rparr>"
    let ?p = "\<lparr>p_id = nat i, master = ?n0, slaves = [?n1, ?n2]\<rparr>"
    obtain fs f' where w: "floyd_Write (floyd_m s) (PartitionId2Key (nat i)) (ReplicasetBytes ?rs) = (fs, f')"
      by (metis prod.exhaust)
    have sr: "SetReplicaset s (nat i) ?rs =
        (if fs = FOk then OK else Corruption ''floyd set error!'', s\<lparr>floyd_m := f'\<rparr>)"
      using w by (simp add: SetReplicaset_def Set_def)
    have u: "mt_unchanged s (s\<lparr>floyd_m := f'\<rparr>)"
      by (rule Write_other_key [OF w key_distinct(3)])
    have pn: "kv f' ZP_META_KEY_PN = kv (floyd_m s) ZP_META_KEY_PN"
      using Write_cases [OF w] key_distinct(7) [of "nat i"] by auto
    show ?thesis
    proof (cases "fs = FOk")
      case False
      with "1.prems" True sr have "s' = s\<lparr>floyd_m := f'\<rparr>"
        by (subst (asm) Distribute_for.simps) (simp add: Let_def ok_def)
      with u pn show ?thesis by simp
    next
      case ok: True
      with "1.prems" True sr
      have "Distribute_for alive num (i + 1) (infos @ [?p]) (s\<lparr>floyd_m := f'\<rparr>) = (st, infos', s')"
        by (subst (asm) Distribute_for.simps) (simp add: Let_def ok_def)
      with "1.IH" [OF True refl refl refl refl refl refl, of OK "s\<lparr>floyd_m := f'\<rparr>"] sr ok
      have "mt_unchanged (s\<lparr>floyd_m := f'\<rparr>) s' \<and>
            kv (floyd_m s') ZP_META_KEY_PN = kv (floyd_m (s\<lparr>floyd_m := f'\<rparr>)) ZP_META_KEY_PN"
        by (simp add: ok_def)
      with u pn show ?thesis by (auto intro: mt_unchanged_trans)
    qed
  qed
qed

lemma Distribute_placement_effect:
  assumes "Distribute_placement s num = Returns (st, s')"
  shows "mt_unchanged s s' \<or> (\<exists>t b. mt_written s t b s')"
proof -
  obtain st1 nodes s1 where g: "GetAllNode s = ((st1, nodes), s1)"
    by (metis prod.exhaust)
  note u1 = unchanged_mt [OF GetAllNode_frame [OF g]]
  show ?thesis
  proof (cases "st1 = OK \<and> GetAllAliveNode nodes [] \<noteq> []")
    case False
    with assms g have "s' = s1"
      by (auto simp: Distribute_placement_def ok_def Let_def split: if_splits)
    with u1 show ?thesis by simp
  next
    case True
    with assms g obtain alive where r: "Reorganize (GetAllAliveNode nodes []) [] = Some alive"
      by (auto simp: Distribute_placement_def ok_def Let_def split: option.splits)
    obtain st2 infos s2 where d: "Distribute_for alive num 0 [] s1 = (st2, infos, s2)"
      by (metis prod.exhaust)
    from Distribute_for_frame [OF d] u1 have u2: "mt_unchanged s s2"
      by (auto intro: mt_unchanged_trans)
    show ?thesis
    proof (cases "st2 = OK")
      case False
      with assms g True r d have "s' = s2"
        by (auto simp: Distribute_placement_def ok_def Let_def)
      with u2 show ?thesis by simp
    next
      case st2: True
      let ?t = "\<lparr>version = version_m s2 + 1, info = infos\<rparr>"
      obtain st3 s3 where w: "SetMSInfo s2 ?t = (st3, s3)"
        by (metis prod.exhaust)
      let ?s4 = "if st3 = OK then s3\<lparr>version_m := version_m s3 + 1\<rparr> else s3"
      obtain fs f' where p: "floyd_Write (floyd_m ?s4) ZP_META_KEY_PN (Text (to_string num)) = (fs, f')"
        by (metis prod.exhaust)
      from assms g True r d st2 w p have s': "s' = ?s4\<lparr>floyd_m := f'\<rparr>"
        by (auto simp: Distribute_placement_def ok_def Let_def split: if_splits)
      from SetMSInfo_cases [OF w] have "rewritten s2 infos st3 ?s4"
        by (auto simp: rewritten_def Let_def)
      then have "mt_written s2 ?t (st3 = OK) ?s4" by (rule rewritten_mt_written)
      with u2 have "mt_written s ?t (st3 = OK) ?s4" by (rule mt_unchanged_written)
      moreover from Write_other_key [OF p key_distinct(2)] s' have "mt_unchanged ?s4 s'" by simp
      ultimately have "mt_written s ?t (st3 = OK) s'" by (rule mt_written_unchanged)
      then show ?thesis by blast
    qed
  qed
qed

lemma Distribute_effect:
  assumes "Distribute s num = Returns (st, s')"
  shows "mt_unchanged s s' \<or> (\<exists>t b. mt_written s t b s')"
proof -
  obtain r s0 where p: "PartitionNums s = (r, s0)" by (metis prod.exhaust)
  note u0 = unchanged_mt [OF PartitionNums_frame [OF p]]
  from assms p obtain pn where r: "r = Some pn"
    by (cases r) (auto simp: Distribute_def)
  show ?thesis
  proof (cases "pn = 0")
    case False
    with assms p r have "s' = s0" by (simp add: Distribute_def)
    with u0 show ?thesis by simp
  next
    case True
    with assms p r have "Distribute_placement s0 num = Returns (st, s')"
      by (simp add: Distribute_def)
    from Distribute_placement_effect [OF this] u0 show ?thesis
      by (auto intro: mt_unchanged_trans mt_unchanged_written)
  qed
qed

lemma OnNode_effect:
  assumes "OnNode s ip0 port0 = (st, s')"
  shows "mt_unchanged s s' \<or> (\<exists>t b. mt_written s t b s')"
  using OnNode_cases [OF assms] by (auto dest: unchanged_mt rewritten_mt_written)

lemma OffNode_effect:
  assumes "OffNode s ip0 port0 = (st, s')"
  shows "mt_unchanged s s' \<or> (\<exists>t b. mt_written s t b s')"
  using OffNode_cases [OF assms]
  by (auto dest: rewritten_mt_written mt_unchanged_written)

lemma node_eq_iff: "(n = \<lparr>ip = a, port = b\<rparr>) = (ip n = a \<and> port n = b)"
  by (cases n) auto

lemma node_rebuild: "\<lparr>ip = ip x, port = port x\<rparr> = (x::Node)"
  by (cases x) simp

lemma is_master_of_eq: "is_master_of ip0 port0 p \<longleftrightarrow> master p = \<lparr>ip = ip0, port = port0\<rparr>"
  by (auto simp: is_master_of_def node_eq_iff)

lemma IsAlive_iff:
  "IsAlive alive ip0 port0 \<longleftrightarrow> (\<exists>ns\<in>set alive. node ns = \<lparr>ip = ip0, port = port0\<rparr>)"
  by (induction alive) (auto simp: node_eq_iff)

lemma IsAlive_up_in:
  "IsAlive (GetAllAliveNode nodes []) (ip n) (port n) \<longleftrightarrow> up_in nodes n"
  by (cases n) (auto simp: IsAlive_iff GetAllAliveNode_def up_in_def)

lemma OnNode_partition_fst:
  "fst (OnNode_partition ip0 port0 p) \<longleftrightarrow>
     master p = \<lparr>ip = [], port = 0\<rparr> \<and> \<lparr>ip = ip0, port = port0\<rparr> \<in> set (slaves p)"
proof -
  have "(first_index (\<lambda>n. ip n = ip0 \<and> port n = port0) (slaves p) = None) \<longleftrightarrow>
        \<lparr>ip = ip0, port = port0\<rparr> \<notin> set (slaves p)"
    by (auto simp: first_index_None node_eq_iff node_rebuild)
  then show ?thesis
    by (cases "first_index (\<lambda>n. ip n = ip0 \<and> port n = port0) (slaves p)")
       (auto simp: OnNode_partition_def Let_def node_eq_iff)
qed

lemma OnNode_partition_promote:
  assumes "master p = \<lparr>ip = [], port = 0\<rparr>" and "\<lparr>ip = ip0, port = port0\<rparr> \<in> set (slaves p)"
  shows "\<exists>j<length (slaves p).
           slaves p ! j = \<lparr>ip = ip0, port = port0\<rparr> \<and>
           (\<forall>k<j. slaves p ! k \<noteq> \<lparr>ip = ip0, port = port0\<rparr>) \<and>
           snd (OnNode_partition ip0 port0 p) =
             p\<lparr>master := \<lparr>ip = ip0, port = port0\<rparr>,
               slaves := butlast ((slaves p)[j := last (slaves p)])\<rparr>"
proof -
  let ?P = "\<lambda>n. ip n = ip0 \<and> port n = port0"
  from assms(2) have "\<exists>x\<in>set (slaves p). ?P x"
    by (rule bexI [rotated]) simp
  then have "first_index ?P (slaves p) \<noteq> None"
    by (simp add: first_index_None)
  then obtain j where j: "first_index ?P (slaves p) = Some j" by auto
  then have jl: "j < length (slaves p)" and pj: "?P (slaves p ! j)"
    and before: "\<forall>k<j. \<not> ?P (slaves p ! k)"
    by (auto simp: first_index_Some)
  from pj have sj: "slaves p ! j = \<lparr>ip = ip0, port = port0\<rparr>"
    by (simp add: node_eq_iff)
  from jl have ne: "slaves p \<noteq> []" by auto
  have "snd (OnNode_partition ip0 port0 p) =
          p\<lparr>master := \<lparr>ip = ip0, port = port0\<rparr>,
            slaves := butlast ((slaves p)[j := last (slaves p)])\<rparr>"
    using assms(1) j sj ne by (simp add: OnNode_partition_def Let_def last_conv_nth)
  with jl sj before show ?thesis
    by (auto simp: node_eq_iff)
qed

lemma OffNode_partition_cases:
  assumes "master p = \<lparr>ip = ip0, port = port0\<rparr>"
  shows "((\<exists>n\<in>set (slaves p). up_in nodes n) \<longrightarrow>
            (\<exists>j<length (slaves p).
               up_in nodes (slaves p ! j) \<and> (\<forall>k<j. \<not> up_in nodes (slaves p ! k)) \<and>
               snd (OffNode_partition (GetAllAliveNode nodes []) ip0 port0 p) =
                 p\<lparr>master := slaves p ! j,
                   slaves := (slaves p)[j := \<lparr>ip = ip0, port = port0\<rparr>]\<rparr>)) \<and>
         ((\<forall>n\<in>set (slaves p). \<not> up_in nodes n) \<longrightarrow>
            snd (OffNode_partition (GetAllAliveNode nodes []) ip0 port0 p) =
              p\<lparr>master := \<lparr>ip = [], port = 0\<rparr>,
                slaves := slaves p @ [\<lparr>ip = ip0, port = port0\<rparr>]\<rparr>)"
proof -
  let ?P = "\<lambda>n. IsAlive (GetAllAliveNode nodes []) (ip n) (port n)"
  have P: "?P = up_in nodes" by (simp add: IsAlive_up_in)
  from assms have m: "\<not> (ip0 \<noteq> ip (master p) \<or> port0 \<noteq> port (master p))" by simp
  show ?thesis
  proof (cases "first_index ?P (slaves p)")
    case None
    then have "\<forall>n\<in>set (slaves p). \<not> up_in nodes n"
      by (simp add: first_index_None P)
    moreover from None m assms
    have "snd (OffNode_partition (GetAllAliveNode nodes []) ip0 port0 p) =
            p\<lparr>master := \<lparr>ip = [], port = 0\<rparr>,
              slaves := slaves p @ [\<lparr>ip = ip0, port = port0\<rparr>]\<rparr>"
      by (simp add: OffNode_partition_def Let_def)
    ultimately show ?thesis by blast
  next
    case (Some j)
    then have j: "j < length (slaves p)" "up_in nodes (slaves p ! j)"
      "\<forall>k<j. \<not> up_in nodes (slaves p ! k)"
      by (simp_all add: first_index_Some P)
    from Some m assms
    have "snd (OffNode_partition (GetAllAliveNode nodes []) ip0 port0 p) =
            p\<lparr>master := slaves p ! j, slaves := (slaves p)[j := \<lparr>ip = ip0, port = port0\<rparr>]\<rparr>"
      by (simp add: OffNode_partition_def Let_def)
    with j show ?thesis by (metis nth_mem)
  qed
qed

subsection \<open>A failed write of the table in OnNode and OffNode\<close>

text \<open>
  \<open>OnNode\<close> and \<open>OffNode\<close> return the failure of the write of the table: the status is not ok,
  and the cached version and the stored table are what they were.
\<close>

lemma OnNode_failed_write:
  assumes "OnNode s ip0 port0 = (st, s')" and "mt_writes s' = mt_writes s @ [(v, False)]"
  shows "st \<noteq> OK \<and> version_m s' = version_m s \<and> kv (floyd_m s') = kv (floyd_m s)"
proof -
  from OnNode_cases [OF assms(1)]
  consider "unchanged s s'" | infos where "rewritten s infos st s'" by blast
  then show ?thesis
  proof cases
    case 1
    then have "mt_writes s' = mt_writes s" by (simp add: unchanged_def mt_writes_def)
    with assms(2) show ?thesis by simp
  next
    case 2
    show ?thesis
    proof (cases "st = OK")
      case True
      with 2 have "mt_writes s' =
          mt_writes s @ [(PullBytes \<lparr>version = version_m s + 1, info = infos\<rparr>, True)]"
        by (simp add: rewritten_def Let_def mt_writes_def)
      with assms(2) show ?thesis by simp
    next
      case False
      with 2 show ?thesis by (simp add: rewritten_def Let_def)
    qed
  qed
qed

lemma OffNode_failed_write:
  assumes "OffNode s ip0 port0 = (st, s')" and "mt_writes s' = mt_writes s @ [(v, False)]"
  shows "st \<noteq> OK \<and> version_m s' = version_m s \<and>
         kv (floyd_m s') ZP_META_KEY_MT = kv (floyd_m s) ZP_META_KEY_MT"
proof -
  from OffNode_cases [OF assms(1)]
  consider "mt_unchanged s s'"
    | infos s3 where "mt_unchanged s s3" "rewritten s3 infos st s'" by blast
  then show ?thesis
  proof cases
    case 1
    then have "mt_writes s' = mt_writes s" by (simp add: mt_unchanged_def)
    with assms(2) show ?thesis by simp
  next
    case 2
    show ?thesis
    proof (cases "st = OK")
      case True
      with 2 have "mt_writes s' =
          mt_writes s @ [(PullBytes \<lparr>version = version_m s3 + 1, info = infos\<rparr>, True)]"
        by (simp add: rewritten_def Let_def mt_writes_def mt_unchanged_def)
      with assms(2) show ?thesis by simp
    next
      case False
      with 2 show ?thesis by (simp add: rewritten_def Let_def mt_unchanged_def)
    qed
  qed
qed

subsection \<open>Decimal strings\<close>

lemma less_10_cases:
  "d < 10 \<Longrightarrow> d = 0 \<or> d = 1 \<or> d = 2 \<or> d = 3 \<or> d = 4 \<or> d = 5 \<or> d = 6 \<or> d = 7 \<or> d = 8 \<or> d = (9::nat)"
  by arith

lemma digit_char_props:
  assumes "d < 10"
  shows "isdigit (digit_char d)" and "digit_val (digit_char d) = d"
    and "\<not> isspace (digit_char d)" and "digit_char d \<noteq> CHR ''-''" and "digit_char d \<noteq> CHR ''+''"
  using less_10_cases [OF assms]
  by (auto simp: digit_char_def isdigit_def digit_val_def isspace_def)

lemma to_string_nat_digits: "\<forall>c\<in>set (to_string_nat n). isdigit c"
proof (induction n rule: to_string_nat.induct)
  case (1 n)
  show ?case
  proof (cases "n < 10")
    case True
    then show ?thesis by (subst to_string_nat.simps) (simp add: digit_char_props)
  next
    case False
    with "1.IH" show ?thesis
      by (subst to_string_nat.simps) (simp add: digit_char_props)
  qed
qed

lemma to_string_nat_hd:
  "to_string_nat n \<noteq> [] \<and> (\<exists>d<10. hd (to_string_nat n) = digit_char d)"
proof (induction n rule: to_string_nat.induct)
  case (1 n)
  show ?case
  proof (cases "n < 10")
    case True
    then show ?thesis by (subst (1 2) to_string_nat.simps) auto
  next
    case False
    with "1.IH" show ?thesis
      by (subst (1 2) to_string_nat.simps) auto
  qed
qed

lemma to_string_nat_val:
  "foldl (\<lambda>a c. 10 * a + digit_val c) 0 (to_string_nat n) = n"
proof (induction n rule: to_string_nat.induct)
  case (1 n)
  show ?case
  proof (cases "n < 10")
    case True
    then show ?thesis by (subst to_string_nat.simps) (simp add: digit_char_props)
  next
    case False
    with "1.IH" show ?thesis
      by (subst to_string_nat.simps) (simp add: digit_char_props)
  qed
qed

lemma isdigit_plain: "isdigit c \<Longrightarrow> \<not> isspace c \<and> c \<noteq> CHR ''-'' \<and> c \<noteq> CHR ''+''"
  by (auto simp: isdigit_def isspace_def)

lemma stoi_plain:
  assumes "ds \<noteq> []" and "\<forall>c\<in>set ds. isdigit c"
    and "int (foldl (\<lambda>a c. 10 * a + digit_val c) 0 ds) \<le> 2147483647"
  shows "stoi ds = Some (int (foldl (\<lambda>a c. 10 * a + digit_val c) 0 ds))"
proof -
  from assms(1,2) have h: "isdigit (hd ds)" by (cases ds) auto
  from assms(1) isdigit_plain [OF h] have dw: "dropWhile isspace ds = ds"
    by (cases ds) auto
  from assms(2) have tw: "takeWhile isdigit ds = ds"
    by (simp add: takeWhile_eq_all_conv)
  from isdigit_plain [OF h] assms(1,3) show ?thesis
    unfolding stoi_def Let_def dw by (simp add: tw)
qed

lemma stoi_minus:
  assumes "ds \<noteq> []" and "\<forall>c\<in>set ds. isdigit c"
    and "int (foldl (\<lambda>a c. 10 * a + digit_val c) 0 ds) \<le> 2147483648"
  shows "stoi (CHR ''-'' # ds) = Some (- int (foldl (\<lambda>a c. 10 * a + digit_val c) 0 ds))"
proof -
  have dw: "dropWhile isspace (CHR ''-'' # ds) = CHR ''-'' # ds"
    by (simp add: isspace_def)
  from assms(2) have tw: "takeWhile isdigit ds = ds"
    by (simp add: takeWhile_eq_all_conv)
  from assms(1,3) show ?thesis
    unfolding stoi_def Let_def dw by (simp add: tw)
qed

lemma stoi_to_string:
  assumes "- 2147483648 \<le> i" and "i \<le> 2147483647"
  shows "stoi (to_string i) = Some i"
proof (cases "i < 0")
  case True
  let ?ds = "to_string_nat (nat (- i))"
  have ne: "?ds \<noteq> []" using to_string_nat_hd [of "nat (- i)"] by simp
  have v: "int (foldl (\<lambda>a c. 10 * a + digit_val c) 0 ?ds) = - i"
    using True by (simp add: to_string_nat_val)
  with assms have "int (foldl (\<lambda>a c. 10 * a + digit_val c) 0 ?ds) \<le> 2147483648" by simp
  from stoi_minus [OF ne to_string_nat_digits this] v True show ?thesis
    by (simp add: to_string_def)
next
  case False
  let ?ds = "to_string_nat (nat i)"
  have ne: "?ds \<noteq> []" using to_string_nat_hd [of "nat i"] by simp
  have v: "int (foldl (\<lambda>a c. 10 * a + digit_val c) 0 ?ds) = i"
    using False by (simp add: to_string_nat_val)
  with assms have "int (foldl (\<lambda>a c. 10 * a + digit_val c) 0 ?ds) \<le> 2147483647" by simp
  from stoi_plain [OF ne to_string_nat_digits this] v False show ?thesis
    by (simp add: to_string_def)
qed

subsection \<open>Calls without failures of the store\<close>

lemma no_fault: "faults f = [] \<Longrightarrow> next_fault f = (False, f)"
  by (simp add: next_fault_def)

lemma DirtyRead_no_fault:
  "faults f = [] \<Longrightarrow>
     floyd_DirtyRead f k = (case kv f k of None \<Rightarrow> (FNotFound, Text []) | Some v \<Rightarrow> (FOk, v), f)"
  by (simp add: floyd_DirtyRead_def no_fault split: option.splits)

lemma Write_no_fault:
  "faults f = [] \<Longrightarrow>
     floyd_Write f k v = (FOk, f\<lparr>kv := (kv f)(k \<mapsto> v), wlog := wlog f @ [(k, v, True)]\<rparr>)"
  by (simp add: floyd_Write_def no_fault)

lemma PartitionNums_no_fault:
  "faults (floyd_m s) = [] \<Longrightarrow>
     PartitionNums s =
       (case kv (floyd_m s) ZP_META_KEY_PN of None \<Rightarrow> Some 0 | Some v \<Rightarrow> stoi_bytes v, s)"
  by (simp add: PartitionNums_def DirtyRead_no_fault split: option.splits)

lemma GetAllNode_no_fault:
  "faults (floyd_m s) = [] \<Longrightarrow> kv (floyd_m s) ZP_META_KEY_ND = Some (NodesBytes nodes) \<Longrightarrow>
     GetAllNode s = ((OK, nodes), s)"
  by (simp add: GetAllNode_def DirtyRead_no_fault)

lemma Distribute_for_no_fault:
  "faults (floyd_m s) = [] \<Longrightarrow>
     \<exists>infos' s'. Distribute_for alive num i infos s = (OK, infos', s') \<and>
                 faults (floyd_m s') = []"
proof (induction alive num i infos s rule: Distribute_for.induct)
  case (1 alive num i infos s)
  show ?case
  proof (cases "i < num")
    case False
    with "1.prems" show ?thesis by (subst Distribute_for.simps) simp
  next
    case True
    let ?an = "int (length alive)"
    let ?n0 = "node (alive ! nat (i mod ?an))"
    let ?n1 = "node (alive ! nat ((i + 1) mod ?an))"
    let ?n2 = "node (alive ! nat ((i + 2) mod ?an))"
    let ?rs = "\<lparr>rs_id = nat i, rs_node = [?n0, ?n1, ?n2]\<rparr>"
    let ?p = "\<lparr>p_id = nat i, master = ?n0, slaves = [?n1, ?n2]\<rparr>"
    let ?f' = "(floyd_m s)\<lparr>kv := (kv (floyd_m s))(PartitionId2Key (nat i) \<mapsto> ReplicasetBytes ?rs),
                 wlog := wlog (floyd_m s) @ [(PartitionId2Key (nat i), ReplicasetBytes ?rs, True)]\<rparr>"
    have sr: "SetReplicaset s (nat i) ?rs = (OK, s\<lparr>floyd_m := ?f'\<rparr>)"
      using "1.prems" by (simp add: SetReplicaset_def Set_def Write_no_fault)
    have nf: "faults (floyd_m (s\<lparr>floyd_m := ?f'\<rparr>)) = []"
      using "1.prems" by simp
    from "1.IH" [OF True refl refl refl refl refl refl sr [symmetric] _ nf]
    obtain infos' s' where
      "Distribute_for alive num (i + 1) (infos @ [?p]) (s\<lparr>floyd_m := ?f'\<rparr>) = (OK, infos', s')"
      "faults (floyd_m s') = []"
      by (auto simp: ok_def)
    with True sr show ?thesis
      by (subst Distribute_for.simps) (simp add: Let_def ok_def)
  qed
qed

lemma Distribute_rejects:
  assumes "kv (floyd_m s) ZP_META_KEY_PN = Some (Text (to_string n))"
    and "n \<noteq> 0" and "- 2147483648 \<le> n" and "n \<le> 2147483647"
    and "faults (floyd_m s) = []"
  shows "Distribute s num = Returns (Corruption ''Already Distribute'', s)"
  using assms
  by (simp add: Distribute_def PartitionNums_no_fault stoi_bytes_def stoi_to_string)

lemma Distribute_seq_rejects:
  assumes "kv (floyd_m s) ZP_META_KEY_PN = Some (Text (to_string n))"
    and "n \<noteq> 0" and "- 2147483648 \<le> n" and "n \<le> 2147483647"
    and "faults (floyd_m s) = []"
  shows "Distribute_seq s nums =
           Returns (replicate (length nums) (Corruption ''Already Distribute''), s)"
  by (induction nums) (simp_all add: Distribute_rejects [OF assms])

lemma Distribute_first:
  assumes "faults (floyd_m s) = []"
    and "kv (floyd_m s) ZP_META_KEY_PN = None"
    and "kv (floyd_m s) ZP_META_KEY_ND = Some (NodesBytes nodes)"
    and "\<exists>ns\<in>set nodes. status ns = 0"
    and "Reorganize (GetAllAliveNode nodes []) [] = Some alive"
  shows "\<exists>s1. Distribute s num = Returns (OK, s1) \<and>
              kv (floyd_m s1) ZP_META_KEY_PN = Some (Text (to_string num)) \<and>
              faults (floyd_m s1) = []"
proof -
  from assms(4) have ne: "GetAllAliveNode nodes [] \<noteq> []"
    by (auto simp: GetAllAliveNode_def filter_empty_conv)
  from Distribute_for_no_fault [OF assms(1), of alive num 0 "[]"]
  obtain infos s2 where d: "Distribute_for alive num 0 [] s = (OK, infos, s2)"
    and nf2: "faults (floyd_m s2) = []" by blast
  let ?t = "\<lparr>version = version_m s2 + 1, info = infos\<rparr>"
  let ?f3 = "(floyd_m s2)\<lparr>kv := (kv (floyd_m s2))(ZP_META_KEY_MT \<mapsto> PullBytes ?t),
                wlog := wlog (floyd_m s2) @ [(ZP_META_KEY_MT, PullBytes ?t, True)]\<rparr>"
  have w: "SetMSInfo s2 ?t = (OK, s2\<lparr>floyd_m := ?f3\<rparr>)"
    using nf2 by (simp add: SetMSInfo_def Set_def Write_no_fault)
  let ?s4 = "s2\<lparr>floyd_m := ?f3, version_m := version_m s2 + 1\<rparr>"
  have nf4: "faults (floyd_m ?s4) = []" using nf2 by simp
  let ?f5 = "(floyd_m ?s4)\<lparr>kv := (kv (floyd_m ?s4))(ZP_META_KEY_PN \<mapsto> Text (to_string num)),
                wlog := wlog (floyd_m ?s4) @ [(ZP_META_KEY_PN, Text (to_string num), True)]\<rparr>"
  have p: "floyd_Write (floyd_m ?s4) ZP_META_KEY_PN (Text (to_string num)) = (FOk, ?f5)"
    by (rule Write_no_fault [OF nf4])
  have pl: "Distribute_placement s num = Returns (OK, ?s4\<lparr>floyd_m := ?f5\<rparr>)"
    unfolding Distribute_placement_def GetAllNode_no_fault [OF assms(1,3)]
    using ne assms(5) d w p by (simp add: ok_def Let_def)
  have "Distribute s num = Returns (OK, ?s4\<lparr>floyd_m := ?f5\<rparr>)"
    using assms(1,2) pl by (simp add: Distribute_def PartitionNums_no_fault)
  moreover have "kv (floyd_m (?s4\<lparr>floyd_m := ?f5\<rparr>)) ZP_META_KEY_PN = Some (Text (to_string num))"
    by simp
  moreover have "faults (floyd_m (?s4\<lparr>floyd_m := ?f5\<rparr>)) = []"
    using nf2 by simp
  ultimately show ?thesis by blast
qed

lemma Distribute_no_nodes:
  assumes "faults (floyd_m s) = []"
    and "kv (floyd_m s) ZP_META_KEY_PN = None"
    and "kv (floyd_m s) ZP_META_KEY_ND = Some (NodesBytes nodes)"
    and "\<forall>ns\<in>set nodes. status ns \<noteq> 0"
  shows "Distribute s num = Returns (Corruption ''no nodes'', s)"
proof -
  from assms(4) have "GetAllAliveNode nodes [] = []"
    by (auto simp: GetAllAliveNode_def filter_empty_conv)
  then have "Distribute_placement s num = Returns (Corruption ''no nodes'', s)"
    unfolding Distribute_placement_def GetAllNode_no_fault [OF assms(1,3)]
    by (simp add: ok_def)
  with assms(1,2) show ?thesis
    by (simp add: Distribute_def PartitionNums_no_fault)
qed

subsection \<open>Maps in key order\<close>

lemma map_set_keys: "fst ` set (map_set k v m) = insert k (fst ` set m)"
  by (induction k v m rule: map_set.induct) auto

lemma map_set_foldl_keys:
  "fst ` set (foldl (\<lambda>m x. map_set (g x) v m) m0 xs) = fst ` set m0 \<union> g ` set xs"
  by (induction xs arbitrary: m0) (auto simp: map_set_keys)

lemma map_set_nonempty: "map_set k v m \<noteq> []"
  by (induction k v m rule: map_set.induct) auto

lemma map_set_subset: "set (map_set k v m) \<subseteq> insert (k, v) (set m)"
  by (induction k v m rule: map_set.induct) auto

lemma map_set_length: "length (map_set k v m) \<le> Suc (length m)"
  by (induction k v m rule: map_set.induct) auto

subsection \<open>Reorganize\<close>

text \<open>
  A pass over buckets that are all empty adds their number to the count; a pass over buckets
  that all hold a node takes the last node of each. Once every bucket is empty the loop
  returns if and only if the count, going up by the number of buckets and wrapping around,
  meets that number. It returns when all buckets are of the same size, as they are when the
  hosts are pairwise different, and what it returns for a list that is not empty is not
  empty, so that \<open>Distribute\<close> never divides by zero. Three nodes on three hosts come out in
  the order of their hosts, whatever their order in the nodes table.
\<close>

lemmas reorg_defs = Reorganize_def Reorganize_bucket_def Reorganize_while.simps

lemma Reorganize_for_empty:
  "\<forall>b\<in>set m. snd b = [] \<Longrightarrow>
     Reorganize_for m ec alive = (m, ec + of_nat (length m), alive)"
  by (induction m ec alive rule: Reorganize_for.induct) (auto simp: algebra_simps)

lemma Reorganize_for_full:
  "\<forall>b\<in>set m. snd b \<noteq> [] \<Longrightarrow>
     Reorganize_for m ec alive =
       (map (\<lambda>b. (fst b, butlast (snd b))) m, ec, alive @ map (\<lambda>b. last (snd b)) m)"
  by (induction m ec alive rule: Reorganize_for.induct) auto

lemma Reorganize_for_grows:
  "Reorganize_for m ec alive = (m', e', a') \<Longrightarrow> length alive \<le> length a'"
proof (induction m ec alive arbitrary: m' e' a' rule: Reorganize_for.induct)
  case (1 ec alive)
  then show ?case by simp
next
  case (2 k v m ec alive)
  show ?case
  proof (cases "v = []")
    case True
    obtain m2 e2 a2 where r: "Reorganize_for m (ec + 1) alive = (m2, e2, a2)"
      by (metis prod.exhaust)
    with True "2.prems" have "a' = a2" by simp
    with "2.IH"(1) [OF True r] show ?thesis by simp
  next
    case False
    obtain m2 e2 a2 where r: "Reorganize_for m ec (alive @ [last v]) = (m2, e2, a2)"
      by (metis prod.exhaust)
    with False "2.prems" have "a' = a2" by simp
    with "2.IH"(2) [OF False r] show ?thesis by simp
  qed
qed

lemma Reorganize_while_grows:
  assumes "Reorganize_while m msize ec alive = Some y"
  shows "length alive \<le> length y"
proof (rule Reorganize_while.raw_induct
    [where P = "\<lambda>m msize ec alive y. length alive \<le> length y", OF _ assms])
  fix f :: "(string \<times> NodeStatus list) list \<Rightarrow> 32 word \<Rightarrow> 32 word \<Rightarrow> NodeStatus list \<Rightarrow>
            NodeStatus list option"
  fix m msize ec alive y
  assume IH: "\<And>m msize ec alive y. f m msize ec alive = Some y \<Longrightarrow> length alive \<le> length y"
    and body: "(if ec = msize then Some alive
                else case Reorganize_for m ec alive of (m', e', a') \<Rightarrow> f m' msize e' a') = Some y"
  show "length alive \<le> length y"
  proof (cases "ec = msize")
    case True
    with body show ?thesis by simp
  next
    case False
    obtain m' e' a' where p: "Reorganize_for m ec alive = (m', e', a')"
      by (metis prod.exhaust)
    with False body have "f m' msize e' a' = Some y" by simp
    then have "length a' \<le> length y" by (rule IH)
    moreover from p have "length alive \<le> length a'" by (rule Reorganize_for_grows)
    ultimately show ?thesis by simp
  qed
qed

lemma Reorganize_while_wraps:
  assumes "\<forall>b\<in>set m. snd b = []" and "msize = of_nat (length m)"
  shows "ec + of_nat k * msize = msize \<Longrightarrow> Reorganize_while m msize ec alive = Some alive"
proof (induction k arbitrary: ec)
  case 0
  then show ?case by (subst Reorganize_while.simps) simp
next
  case (Suc k)
  show ?case
  proof (cases "ec = msize")
    case True
    then show ?thesis by (subst Reorganize_while.simps) simp
  next
    case False
    from Suc.prems have "(ec + msize) + of_nat k * msize = msize"
      by (simp add: algebra_simps)
    then have "Reorganize_while m msize (ec + msize) alive = Some alive"
      by (rule Suc.IH)
    with False assms show ?thesis
      by (subst Reorganize_while.simps) (simp add: Reorganize_for_empty)
  qed
qed

lemma Reorganize_while_never:
  assumes "\<forall>b\<in>set m. snd b = []" and "msize = of_nat (length m)"
    and "\<forall>k. ec + of_nat k * msize \<noteq> msize"
  shows "Reorganize_while m msize ec alive = None"
proof -
  let ?stuck = "\<lambda>m msize (ec::32 word). (\<forall>b\<in>set m. snd b = []) \<and> msize = of_nat (length m) \<and>
                  (\<forall>k. ec + of_nat k * msize \<noteq> msize)"
  have "\<not> ?stuck m msize ec" if r: "Reorganize_while m msize ec alive = Some y" for y
  proof (rule Reorganize_while.raw_induct
      [where P = "\<lambda>m msize ec alive y. \<not> ?stuck m msize ec", OF _ r])
    fix f :: "(string \<times> NodeStatus list) list \<Rightarrow> 32 word \<Rightarrow> 32 word \<Rightarrow> NodeStatus list \<Rightarrow>
              NodeStatus list option"
    fix m msize ec alive y
    assume IH: "\<And>m msize ec alive y. f m msize ec alive = Some y \<Longrightarrow> \<not> ?stuck m msize ec"
      and body: "(if ec = msize then Some alive
                  else case Reorganize_for m ec alive of (m', e', a') \<Rightarrow> f m' msize e' a') = Some y"
    show "\<not> ?stuck m msize ec"
    proof
      assume st: "?stuck m msize ec"
      then have "ec + of_nat 0 * msize \<noteq> msize" by blast
      then have ne: "ec \<noteq> msize" by simp
      from st have "Reorganize_for m ec alive = (m, ec + msize, alive)"
        by (simp add: Reorganize_for_empty)
      with ne body have "f m msize (ec + msize) alive = Some y" by simp
      then have ns: "\<not> ?stuck m msize (ec + msize)" by (rule IH)
      have "\<forall>k. (ec + msize) + of_nat k * msize \<noteq> msize"
      proof
        fix k
        from st have "ec + of_nat (Suc k) * msize \<noteq> msize" by blast
        then show "(ec + msize) + of_nat k * msize \<noteq> msize" by (simp add: algebra_simps)
      qed
      with st ns show False by blast
    qed
  qed
  with assms have "Reorganize_while m msize ec alive \<noteq> Some y" for y by blast
  then show ?thesis by (cases "Reorganize_while m msize ec alive") auto
qed

lemma Reorganize_bucket_full:
  assumes "\<forall>b\<in>set m. snd b \<noteq> []"
  shows "Reorganize_bucket m x \<noteq> [] \<and> (\<forall>b\<in>set (Reorganize_bucket m x). snd b \<noteq> [])"
proof (cases "map_of m (ip (node x))")
  case None
  with assms map_set_subset [of "ip (node x)" "[x]" m] show ?thesis
    by (auto simp: Reorganize_bucket_def map_set_nonempty)
next
  case (Some n)
  with assms map_set_subset [of "ip (node x)" "n @ [x]" m] show ?thesis
    by (auto simp: Reorganize_bucket_def map_set_nonempty)
qed

lemma buckets_full:
  "\<forall>b\<in>set m. snd b \<noteq> [] \<Longrightarrow> \<forall>b\<in>set (foldl Reorganize_bucket m t). snd b \<noteq> []"
proof (induction t arbitrary: m)
  case Nil
  then show ?case by simp
next
  case (Cons x t)
  from Reorganize_bucket_full [OF Cons.prems, of x]
  have "\<forall>b\<in>set (Reorganize_bucket m x). snd b \<noteq> []" by simp
  from Cons.IH [OF this] show ?case by simp
qed

lemma buckets_nonempty:
  "\<forall>b\<in>set m. snd b \<noteq> [] \<Longrightarrow> t \<noteq> [] \<or> m \<noteq> [] \<Longrightarrow> foldl Reorganize_bucket m t \<noteq> []"
proof (induction t arbitrary: m)
  case Nil
  then show ?case by simp
next
  case (Cons x t)
  from Reorganize_bucket_full [OF Cons.prems(1), of x]
  have "\<forall>b\<in>set (Reorganize_bucket m x). snd b \<noteq> []" and "Reorganize_bucket m x \<noteq> []"
    by simp_all
  from Cons.IH [OF this(1)] this(2) show ?case by simp
qed

lemma buckets_distinct_hosts:
  "distinct (map (\<lambda>x. ip (node x)) t) \<Longrightarrow>
   fst ` set m \<inter> (\<lambda>x. ip (node x)) ` set t = {} \<Longrightarrow>
   \<forall>b\<in>set m. length (snd b) = 1 \<Longrightarrow>
   \<forall>b\<in>set (foldl Reorganize_bucket m t). length (snd b) = 1"
proof (induction t arbitrary: m)
  case Nil
  then show ?case by simp
next
  case (Cons x t)
  from Cons.prems(2) have "ip (node x) \<notin> fst ` set m" by auto
  then have none: "map_of m (ip (node x)) = None" by (simp add: map_of_eq_None_iff)
  then have rb: "Reorganize_bucket m x = map_set (ip (node x)) [x] m"
    by (simp add: Reorganize_bucket_def)
  have a: "distinct (map (\<lambda>x. ip (node x)) t)" using Cons.prems(1) by simp
  have b: "fst ` set (Reorganize_bucket m x) \<inter> (\<lambda>x. ip (node x)) ` set t = {}"
    using Cons.prems(1,2) by (auto simp: rb map_set_keys)
  have c: "\<forall>b\<in>set (Reorganize_bucket m x). length (snd b) = 1"
    using Cons.prems(3) map_set_subset [of "ip (node x)" "[x]" m] by (auto simp: rb)
  from Cons.IH [OF a b c] show ?case by simp
qed

lemma buckets_length:
  "length (foldl Reorganize_bucket m t) \<le> length m + length t"
proof (induction t arbitrary: m)
  case Nil
  then show ?case by simp
next
  case (Cons x t)
  have "length (Reorganize_bucket m x) \<le> Suc (length m)"
    by (simp add: Reorganize_bucket_def map_set_length split: option.splits)
  with Cons [of "Reorganize_bucket m x"] show ?case by simp
qed

lemma msize_not_zero:
  assumes "m \<noteq> []" and "length m < 4294967296"
  shows "(0::32 word) \<noteq> of_nat (length m)"
proof -
  from assms have "of_nat (length m) \<noteq> (0::32 word)"
    by (intro of_nat_neq_0) simp_all
  then show ?thesis by simp
qed

lemma Reorganize_while_balanced:
  "m \<noteq> [] \<Longrightarrow> length m < 4294967296 \<Longrightarrow> \<forall>b\<in>set m. length (snd b) = n \<Longrightarrow>
     \<exists>a. Reorganize_while m (of_nat (length m)) 0 alive = Some a"
proof (induction n arbitrary: m alive)
  case 0
  then have e: "\<forall>b\<in>set m. snd b = []" by simp
  have "(0::32 word) + of_nat 1 * of_nat (length m) = of_nat (length m)" by simp
  from Reorganize_while_wraps [OF e refl this] show ?case by blast
next
  case (Suc n)
  let ?m' = "map (\<lambda>b. (fst b, butlast (snd b))) m"
  from Suc.prems(3) have f: "\<forall>b\<in>set m. snd b \<noteq> []" by auto
  from Suc.prems(1,2) have ne: "(0::32 word) \<noteq> of_nat (length m)" by (rule msize_not_zero)
  have "Reorganize_while m (of_nat (length m)) 0 alive =
      Reorganize_while ?m' (of_nat (length m)) 0 (alive @ map (\<lambda>b. last (snd b)) m)"
    using ne by (subst Reorganize_while.simps) (simp add: Reorganize_for_full [OF f])
  moreover have "?m' \<noteq> []" using Suc.prems(1) by simp
  moreover have "length ?m' < 4294967296" using Suc.prems(2) by simp
  moreover have "\<forall>b\<in>set ?m'. length (snd b) = n" using Suc.prems(3) by auto
  ultimately show ?case using Suc.IH [of ?m' "alive @ map (\<lambda>b. last (snd b)) m"] by simp
qed

lemma Reorganize_nonempty:
  assumes "t \<noteq> []" and "length t < 4294967296" and "Reorganize t [] = Some a"
  shows "a \<noteq> []"
proof -
  let ?m = "foldl Reorganize_bucket [] t"
  have f: "\<forall>b\<in>set ?m. snd b \<noteq> []" by (rule buckets_full) simp
  have ne: "?m \<noteq> []" using assms(1) by (intro buckets_nonempty) simp_all
  have "length ?m < 4294967296" using buckets_length [of "[]" t] assms(2) by simp
  with ne have "(0::32 word) \<noteq> of_nat (length ?m)" by (rule msize_not_zero)
  with assms(3) have "Reorganize_while (map (\<lambda>b. (fst b, butlast (snd b))) ?m) (of_nat (length ?m)) 0
      (map (\<lambda>b. last (snd b)) ?m) = Some a"
    unfolding Reorganize_def Let_def
    by (subst (asm) Reorganize_while.simps) (simp add: Reorganize_for_full [OF f])
  then have "length (map (\<lambda>b. last (snd b)) ?m) \<le> length a"
    by (rule Reorganize_while_grows)
  with ne show ?thesis by auto
qed

lemma Reorganize_distinct_hosts:
  assumes "t \<noteq> []" and "length t < 4294967296" and "distinct (map (\<lambda>x. ip (node x)) t)"
  shows "\<exists>a. Reorganize t alive = Some a"
proof -
  let ?m = "foldl Reorganize_bucket [] t"
  have ne: "?m \<noteq> []" using assms(1) by (intro buckets_nonempty) simp_all
  have l: "length ?m < 4294967296" using buckets_length [of "[]" t] assms(2) by simp
  have "\<forall>b\<in>set ?m. length (snd b) = 1"
    using assms(3) by (intro buckets_distinct_hosts) simp_all
  from Reorganize_while_balanced [OF ne l this] show ?thesis
    by (simp add: Reorganize_def Let_def)
qed

lemma Reorganize_three:
  assumes "ip (node a) < ip (node b)" and "ip (node b) < ip (node c)"
  shows "Reorganize [a, b, c] [] = Some [a, b, c]"
    and "Reorganize [a, c, b] [] = Some [a, b, c]"
    and "Reorganize [b, a, c] [] = Some [a, b, c]"
    and "Reorganize [b, c, a] [] = Some [a, b, c]"
    and "Reorganize [c, a, b] [] = Some [a, b, c]"
    and "Reorganize [c, b, a] [] = Some [a, b, c]"
proof -
  from assms have ac: "ip (node a) < ip (node c)" by (rule less_trans)
  from assms ac have n: "\<not> ip (node b) < ip (node a)" "\<not> ip (node c) < ip (node b)"
    "\<not> ip (node c) < ip (node a)" by (simp_all add: not_less less_imp_le)
  from assms ac have e: "ip (node a) \<noteq> ip (node b)" "ip (node b) \<noteq> ip (node a)"
    "ip (node b) \<noteq> ip (node c)" "ip (node c) \<noteq> ip (node b)"
    "ip (node a) \<noteq> ip (node c)" "ip (node c) \<noteq> ip (node a)" by auto
  note facts = assms ac n e
  show "Reorganize [a, b, c] [] = Some [a, b, c]"
    by (simp add: reorg_defs facts)
  show "Reorganize [a, c, b] [] = Some [a, b, c]"
    by (simp add: reorg_defs facts)
  show "Reorganize [b, a, c] [] = Some [a, b, c]"
    by (simp add: reorg_defs facts)
  show "Reorganize [b, c, a] [] = Some [a, b, c]"
    by (simp add: reorg_defs facts)
  show "Reorganize [c, a, b] [] = Some [a, b, c]"
    by (simp add: reorg_defs facts)
  show "Reorganize [c, b, a] [] = Some [a, b, c]"
    by (simp add: reorg_defs facts)
qed

subsection \<open>Liveness\<close>

lemma OnNode_keeps:
  assumes "OnNode s ip0 port0 = (st, s')"
  shows "kv (floyd_m s') ZP_META_KEY_ND = kv (floyd_m s) ZP_META_KEY_ND \<and>
         node_alive_m s' = node_alive_m s \<and> update_thread_m s' = update_thread_m s"
  using OnNode_cases [OF assms] key_distinct(4)
  by (auto simp: unchanged_def rewritten_def Let_def split: if_splits)

lemma first_index_FindNode:
  "FindNode nodes ip0 port0 \<longleftrightarrow>
     first_index (\<lambda>ns. ip0 = ip (node ns) \<and> port0 = port (node ns)) nodes \<noteq> None"
  by (induction nodes) auto

lemma SetNodeStatus_up:
  assumes "SetNodeStatus s nodes ip0 port0 kNodeUp = (OK, s')"
    and "kv (floyd_m s) ZP_META_KEY_ND = Some (NodesBytes nodes)"
  shows "\<exists>i<length nodes. node (nodes ! i) = \<lparr>ip = ip0, port = port0\<rparr> \<and>
           persisted_nodes s' = nodes[i := (nodes ! i)\<lparr>status := 0\<rparr>] \<and>
           node_alive_m s' = node_alive_m s \<and> update_thread_m s' = update_thread_m s"
proof -
  let ?P = "\<lambda>ns. ip0 = ip (node ns) \<and> port0 = port (node ns)"
  from assms(1) obtain i where i: "first_index ?P nodes = Some i"
    by (cases "first_index ?P nodes") (auto simp: SetNodeStatus_def)
  then have il: "i < length nodes" and ni: "node (nodes ! i) = \<lparr>ip = ip0, port = port0\<rparr>"
    by (auto simp: first_index_Some node_eq_iff)
  show ?thesis
  proof (cases "status (nodes ! i) = kNodeUp")
    case True
    with assms i have "s' = s" by (simp add: SetNodeStatus_def)
    moreover from True have "(nodes ! i)\<lparr>status := 0\<rparr> = nodes ! i"
      by (cases "nodes ! i") (simp add: kNodeUp_def)
    then have "nodes[i := (nodes ! i)\<lparr>status := 0\<rparr>] = nodes"
      by simp
    ultimately show ?thesis using il ni assms(2)
      by (auto simp: persisted_nodes_def)
  next
    case False
    let ?nodes' = "nodes[i := (nodes ! i)\<lparr>status := kNodeUp\<rparr>]"
    obtain fs f' where w: "floyd_Write (floyd_m s) ZP_META_KEY_ND (NodesBytes ?nodes') = (fs, f')"
      by (metis prod.exhaust)
    obtain os s2 where o: "OnNode (s\<lparr>floyd_m := f'\<rparr>) ip0 port0 = (os, s2)"
      by (metis prod.exhaust)
    from assms(1) i False w o have fs: "fs = FOk" and s': "s' = s2"
      by (auto simp: SetNodeStatus_def ok_def split: if_splits)
    from Write_cases [OF w] fs have "kv f' ZP_META_KEY_ND = Some (NodesBytes ?nodes')"
      by auto
    with OnNode_keeps [OF o] s' have "persisted_nodes s' = ?nodes'"
      "node_alive_m s' = node_alive_m s" "update_thread_m s' = update_thread_m s"
      by (simp_all add: persisted_nodes_def)
    with il ni show ?thesis by (auto simp: kNodeUp_def)
  qed
qed

lemma DirtyRead_NotFound:
  "floyd_DirtyRead f k = ((FNotFound, v), f') \<Longrightarrow> kv f k = None"
  by (auto simp: floyd_DirtyRead_def split: prod.splits if_splits option.splits)

lemma GetAllNode_NotFound:
  "GetAllNode s = ((st, nodes), s') \<Longrightarrow> IsNotFound st \<Longrightarrow>
     kv (floyd_m s) ZP_META_KEY_ND = None \<and> nodes = []"
  by (auto simp: GetAllNode_def IsNotFound_def
      split: prod.splits if_splits bytes.splits dest: DirtyRead_NotFound)

lemma AddNode_ok:
  assumes "AddNode s ip0 port0 = (OK, s')"
  shows "node_alive_m s' = node_alive_m s \<and> update_thread_m s' = update_thread_m s \<and>
         (\<forall>ns\<in>set (persisted_nodes s). status ns = 0 \<longrightarrow>
            (\<exists>ns'\<in>set (persisted_nodes s'). status ns' = 0 \<and> node ns' = node ns)) \<and>
         (\<exists>ns'\<in>set (persisted_nodes s'). status ns' = 0 \<and> node ns' = \<lparr>ip = ip0, port = port0\<rparr>)"
proof -
  obtain st nodes s1 where g: "GetAllNode s = ((st, nodes), s1)"
    by (metis prod.exhaust)
  note u1 = GetAllNode_frame [OF g]
  show ?thesis
  proof (cases "st = OK \<and> FindNode nodes ip0 port0")
    case True
    with g have nd: "kv (floyd_m s) ZP_META_KEY_ND = Some (NodesBytes nodes)"
      by (auto dest: GetAllNode_ok)
    with u1 have nd1: "kv (floyd_m s1) ZP_META_KEY_ND = Some (NodesBytes nodes)"
      by (simp add: unchanged_def)
    from assms g True have "SetNodeStatus s1 nodes ip0 port0 kNodeUp = (OK, s')"
      by (simp add: AddNode_def ok_def)
    from SetNodeStatus_up [OF this nd1] obtain i where
      i: "i < length nodes" "node (nodes ! i) = \<lparr>ip = ip0, port = port0\<rparr>"
      and p: "persisted_nodes s' = nodes[i := (nodes ! i)\<lparr>status := 0\<rparr>]"
      and k: "node_alive_m s' = node_alive_m s1" "update_thread_m s' = update_thread_m s1"
      by blast
    have ps: "persisted_nodes s = nodes" using nd by (simp add: persisted_nodes_def)
    have a: "\<forall>ns\<in>set nodes. status ns = 0 \<longrightarrow>
               (\<exists>ns'\<in>set (nodes[i := (nodes ! i)\<lparr>status := 0\<rparr>]). status ns' = 0 \<and> node ns' = node ns)"
    proof (intro ballI impI)
      fix ns assume "ns \<in> set nodes" "status ns = 0"
      then obtain j where j: "j < length nodes" "nodes ! j = ns"
        by (auto simp: in_set_conv_nth)
      let ?ns' = "nodes[i := (nodes ! i)\<lparr>status := 0\<rparr>] ! j"
      have "?ns' \<in> set (nodes[i := (nodes ! i)\<lparr>status := 0\<rparr>])"
        using j(1) by simp
      moreover have "status ?ns' = 0 \<and> node ?ns' = node ns"
        using j i(1) \<open>status ns = 0\<close> by (cases "i = j") auto
      ultimately show "\<exists>ns'\<in>set (nodes[i := (nodes ! i)\<lparr>status := 0\<rparr>]). status ns' = 0 \<and> node ns' = node ns"
        by blast
    qed
    have b: "\<exists>ns'\<in>set (nodes[i := (nodes ! i)\<lparr>status := 0\<rparr>]).
               status ns' = 0 \<and> node ns' = \<lparr>ip = ip0, port = port0\<rparr>"
    proof -
      let ?ns' = "(nodes ! i)\<lparr>status := 0\<rparr>"
      have "?ns' \<in> set (nodes[i := ?ns'])" using i(1) by (rule set_update_memI)
      moreover have "status ?ns' = 0 \<and> node ?ns' = \<lparr>ip = ip0, port = port0\<rparr>"
        using i by simp
      ultimately show ?thesis by blast
    qed
    from a b k u1 show ?thesis by (simp add: p ps unchanged_def)
  next
    case False
    let ?new = "\<lparr>node = \<lparr>ip = ip0, port = port0\<rparr>, status = kNodeUp\<rparr>"
    obtain fs f' where w: "floyd_Write (floyd_m s1) ZP_META_KEY_ND (NodesBytes (nodes @ [?new])) = (fs, f')"
      by (metis prod.exhaust)
    from assms g False w have c: "IsNotFound st \<or> st = OK" and fs: "fs = FOk"
      and s': "s' = s1\<lparr>floyd_m := f'\<rparr>"
      by (auto simp: AddNode_def ok_def split: if_splits)
    have ps: "persisted_nodes s = nodes"
    proof (cases "st = OK")
      case True
      with g show ?thesis by (auto dest: GetAllNode_ok simp: persisted_nodes_def)
    next
      case False
      with c GetAllNode_NotFound [OF g] show ?thesis by (simp add: persisted_nodes_def)
    qed
    from Write_cases [OF w] fs s' have p: "persisted_nodes s' = nodes @ [?new]"
      by (auto simp: persisted_nodes_def)
    from u1 s' have "node_alive_m s' = node_alive_m s" "update_thread_m s' = update_thread_m s"
      by (simp_all add: unchanged_def)
    then show ?thesis by (auto simp: p ps kNodeUp_def)
  qed
qed

lemma liveness_ok_mono:
  assumes "liveness_ok P F s"
    and "fst ` set (node_alive_m s') \<subseteq> fst ` set (node_alive_m s)"
    and "persisted_nodes s' = persisted_nodes s"
  shows "liveness_ok P F s'"
  unfolding liveness_ok_def assms(3)
proof
  fix k assume "k \<in> fst ` set (node_alive_m s')"
  with assms(2) have "k \<in> fst ` set (node_alive_m s)" by blast
  with assms(1) show "\<exists>ns\<in>set (persisted_nodes s). status ns = 0 \<and>
      (P k = Some (ip (node ns), port (node ns)) \<or> k = F (ip (node ns)) (port (node ns)))"
    unfolding liveness_ok_def by (rule bspec)
qed

lemma RestoreNodeAlive_ok:
  "liveness_ok P F (RestoreNodeAlive F s (GetAllAliveNode (persisted_nodes s) []) now)"
proof -
  let ?s' = "RestoreNodeAlive F s (GetAllAliveNode (persisted_nodes s) []) now"
  have keys: "fst ` set (node_alive_m ?s') =
      (\<lambda>ns. F (ip (node ns)) (port (node ns))) ` set (GetAllAliveNode (persisted_nodes s) [])"
    by (simp add: RestoreNodeAlive_def map_set_foldl_keys)
  have pn: "persisted_nodes ?s' = persisted_nodes s"
    by (simp add: RestoreNodeAlive_def persisted_nodes_def)
  show ?thesis
    unfolding liveness_ok_def keys pn by (auto simp: GetAllAliveNode_def)
qed

lemma AddNodeAlive_ok:
  assumes "liveness_ok P F s" and "fst (AddNodeAlive P s ip_port now) = OK"
  shows "liveness_ok P F (snd (AddNodeAlive P s ip_port now)) \<and>
         ip_port \<in> fst ` set (node_alive_m (snd (AddNodeAlive P s ip_port now)))"
proof -
  let ?s1 = "s\<lparr>node_alive_m := map_set ip_port now (node_alive_m s)\<rparr>"
  from assms(2) obtain ip0 port0 where p: "P ip_port = Some (ip0, port0)"
    by (cases "P ip_port") (auto simp: AddNodeAlive_def Let_def)
  obtain st s2 where a: "AddNode ?s1 ip0 port0 = (st, s2)" by (metis prod.exhaust)
  from assms(2) p a have st: "st = OK"
    and r: "snd (AddNodeAlive P s ip_port now) =
              s2\<lparr>update_thread_m := update_thread_m s2 @ [(ip_port, kOpAdd)]\<rparr>"
    by (auto simp: AddNodeAlive_def Let_def ok_def split: if_splits)
  let ?s' = "s2\<lparr>update_thread_m := update_thread_m s2 @ [(ip_port, kOpAdd)]\<rparr>"
  from AddNode_ok [OF a [unfolded st]]
  have na: "node_alive_m s2 = map_set ip_port now (node_alive_m s)"
    and keep: "\<forall>ns\<in>set (persisted_nodes ?s1). status ns = 0 \<longrightarrow>
            (\<exists>ns'\<in>set (persisted_nodes s2). status ns' = 0 \<and> node ns' = node ns)"
    and new: "\<exists>ns'\<in>set (persisted_nodes s2). status ns' = 0 \<and> node ns' = \<lparr>ip = ip0, port = port0\<rparr>"
    by simp_all
  have p1: "persisted_nodes ?s1 = persisted_nodes s" by (simp add: persisted_nodes_def)
  have p': "persisted_nodes ?s' = persisted_nodes s2" by (simp add: persisted_nodes_def)
  have keys: "fst ` set (node_alive_m ?s') = insert ip_port (fst ` set (node_alive_m s))"
    by (simp add: na map_set_keys)
  have lv: "liveness_ok P F ?s'"
    unfolding liveness_ok_def keys p'
  proof
    fix k assume k: "k \<in> insert ip_port (fst ` set (node_alive_m s))"
    show "\<exists>ns\<in>set (persisted_nodes s2). status ns = 0 \<and>
            (P k = Some (ip (node ns), port (node ns)) \<or> k = F (ip (node ns)) (port (node ns)))"
    proof (cases "k = ip_port")
      case True
      from new obtain ns' where "ns' \<in> set (persisted_nodes s2)" "status ns' = 0"
        "node ns' = \<lparr>ip = ip0, port = port0\<rparr>" by blast
      with True p show ?thesis by (intro bexI [of _ ns']) simp_all
    next
      case False
      with k have "k \<in> fst ` set (node_alive_m s)" by simp
      with assms(1) obtain ns where ns: "ns \<in> set (persisted_nodes s)" "status ns = 0"
        "P k = Some (ip (node ns), port (node ns)) \<or> k = F (ip (node ns)) (port (node ns))"
        unfolding liveness_ok_def by blast
      with keep p1 obtain ns' where "ns' \<in> set (persisted_nodes s2)" "status ns' = 0"
        "node ns' = node ns" by auto
      with ns(3) show ?thesis by (intro bexI [of _ ns']) simp_all
    qed
  qed
  have "ip_port \<in> fst ` set (node_alive_m ?s')" unfolding keys by (rule insertI1)
  with lv show ?thesis unfolding r by (rule conjI)
qed

lemma UpdateNodeAlive_ok:
  assumes "liveness_ok P F s"
  shows "liveness_ok P F (snd (UpdateNodeAlive s ip_port now))"
proof (cases "map_of (node_alive_m s) ip_port")
  case None
  with assms show ?thesis by (simp add: UpdateNodeAlive_def)
next
  case (Some t)
  then have "ip_port \<in> fst ` set (node_alive_m s)"
    by (metis domI dom_map_of_conv_image_fst)
  then have "fst ` set (map_set ip_port now (node_alive_m s)) \<subseteq> fst ` set (node_alive_m s)"
    by (auto simp: map_set_keys)
  moreover have "persisted_nodes (s\<lparr>node_alive_m := map_set ip_port now (node_alive_m s)\<rparr>) =
      persisted_nodes s"
    by (simp add: persisted_nodes_def)
  ultimately have "liveness_ok P F (s\<lparr>node_alive_m := map_set ip_port now (node_alive_m s)\<rparr>)"
    by (intro liveness_ok_mono [OF assms]) simp_all
  with Some show ?thesis by (simp add: UpdateNodeAlive_def)
qed

lemma CheckNodeAlive_ok:
  assumes "liveness_ok P F s"
  shows "liveness_ok P F (CheckNodeAlive T s now)"
proof (rule liveness_ok_mono [OF assms])
  show "fst ` set (node_alive_m (CheckNodeAlive T s now)) \<subseteq> fst ` set (node_alive_m s)"
    by (simp add: CheckNodeAlive_def Let_def image_mono)
  show "persisted_nodes (CheckNodeAlive T s now) = persisted_nodes s"
    by (simp add: CheckNodeAlive_def Let_def persisted_nodes_def)
qed

subsection \<open>Evaluation of the scenarios\<close>

lemmas key_defs = ZP_META_KEY_ND_def ZP_META_KEY_MT_def ZP_META_KEY_PN_def
  ZP_META_KEY_PREFIX_def PartitionId2Key_def

lemmas store_defs = floyd_DirtyRead_def floyd_Read_def floyd_Write_def next_fault_def

lemmas server_defs = Set_def SetReplicaset_def SetMSInfo_def GetAllNode_def GetAllAliveNode_def
  GetMSInfo_def PartitionNums_def ok_def IsNotFound_def kNodeUp_def kNodeDown_def

lemmas ex_defs = ex_node_def ex_up_def ex_server_def

lemma OnNode_ex_orphan: "OnNode ex_orphan ''10.0.0.1'' 5000 = (OK, ex_promoted)"
  by (simp add: ex_orphan_def ex_promoted_def ex_orphan_table_def ex_promoted_table_def ex_defs
      key_defs store_defs server_defs OnNode_def OnNode_partition_def)

lemmas node_defs = OnNode_def OnNode_partition_def OffNode_def OffNode_partition_def
  SetNodeStatus_def AddNode_def

lemma OnNode_ex_orphan3:
  "fst (OnNode ex_orphan3 ''10.0.0.1'' 5000) = OK"
  "kv (floyd_m (snd (OnNode ex_orphan3 ''10.0.0.1'' 5000))) ZP_META_KEY_MT =
     Some (PullBytes \<lparr>version = 4,
       info = [\<lparr>p_id = 0, master = ex_node ''10.0.0.1'',
                slaves = [ex_node ''10.0.0.3'', ex_node ''10.0.0.2'']\<rparr>]\<rparr>)"
  by (simp_all add: ex_orphan3_def ex_orphan3_table_def ex_defs key_defs store_defs server_defs
      node_defs)

lemma OffNode_ex_led:
  "fst (OffNode ex_led ''10.0.0.1'' 5000) = OK"
  "kv (floyd_m (snd (OffNode ex_led ''10.0.0.1'' 5000))) ZP_META_KEY_MT =
     Some (PullBytes \<lparr>version = 1,
       info = [\<lparr>p_id = 0, master = ex_node ''10.0.0.3'',
                slaves = [ex_node ''10.0.0.2'', ex_node ''10.0.0.1'']\<rparr>]\<rparr>)"
  by (simp_all add: ex_led_def ex_led_table_def ex_led_nodes_def ex_down_def ex_defs key_defs
      store_defs server_defs node_defs)

lemma OffNode_ex_single:
  "fst (OffNode ex_single ''10.0.0.1'' 5000) = OK"
  "kv (floyd_m (snd (OffNode ex_single ''10.0.0.1'' 5000))) ZP_META_KEY_MT =
     Some (PullBytes \<lparr>version = 1,
       info = [\<lparr>p_id = 0, master = ex_node ''10.0.0.1'',
                slaves = [ex_node ''10.0.0.1'', ex_node ''10.0.0.1'']\<rparr>]\<rparr>)"
  "kv (floyd_m (snd (OffNode ex_single ''10.0.0.1'' 5000))) ZP_META_KEY_ND =
     Some (NodesBytes [ex_down ''10.0.0.1''])"
  by (simp_all add: ex_single_def ex_single_table_def ex_down_def ex_defs key_defs
      store_defs server_defs node_defs)

lemmas distribute_defs = Distribute_def Distribute_placement_def Distribute_for.simps
  to_string_def to_string_nat.simps digit_char_def stoi_bytes_def Let_def

lemma Reorganize_three_hosts:
  "Reorganize (GetAllAliveNode [ex_up ''10.0.0.1'', ex_up ''10.0.0.2'', ex_up ''10.0.0.3''] []) [] =
     Some [ex_up ''10.0.0.1'', ex_up ''10.0.0.2'', ex_up ''10.0.0.3'']"
  by (simp add: ex_defs GetAllAliveNode_def reorg_defs)

lemma InitVersion_three_hosts:
  "InitVersion ex_three_hosts = Some (OK, ex_three_hosts\<lparr>version_m := - 1\<rparr>)"
  by (simp add: InitVersion.simps ex_three_hosts_def ex_defs key_defs store_defs)

lemma Distribute_three_hosts:
  "map_option fst (returned (Distribute (ex_three_hosts\<lparr>version_m := - 1\<rparr>) 4)) = Some OK"
  "map_option (\<lambda>r. kv (floyd_m (snd r)) ZP_META_KEY_PN)
     (returned (Distribute (ex_three_hosts\<lparr>version_m := - 1\<rparr>) 4)) = Some (Some (Text ''4''))"
  "map_option (\<lambda>r. kv (floyd_m (snd r)) ZP_META_KEY_MT)
     (returned (Distribute (ex_three_hosts\<lparr>version_m := - 1\<rparr>) 4)) =
     Some (Some (PullBytes ex_bootstrap_table))"
  "map_option (\<lambda>r. version_m (snd r))
     (returned (Distribute (ex_three_hosts\<lparr>version_m := - 1\<rparr>) 4)) = Some 0"
  by (simp_all add: returned_def ex_three_hosts_def ex_bootstrap_table_def ex_defs key_defs
      store_defs server_defs distribute_defs reorg_defs)

lemmas parse_defs = ex_ParseIpPortString_def ex_IpPortString_def stoi_def isspace_def isdigit_def
  digit_val_def Let_def

lemma ex_parse_values:
  "ex_ParseIpPortString ''10.0.0.1:5000'' = Some (''10.0.0.1'', 5000)"
  "ex_ParseIpPortString ''10.0.0.2:5000'' = Some (''10.0.0.2'', 5000)"
  by (simp_all add: parse_defs)

lemma AddNodeAlive_ex_joined:
  "fst (AddNodeAlive ex_ParseIpPortString ex_joined ''10.0.0.2:5000'' 100) = OK"
  "node_alive_m (snd (AddNodeAlive ex_ParseIpPortString ex_joined ''10.0.0.2:5000'' 100)) =
     [(''10.0.0.1:5000'', 90), (''10.0.0.2:5000'', 100)]"
  "persisted_nodes (snd (AddNodeAlive ex_ParseIpPortString ex_joined ''10.0.0.2:5000'' 100)) =
     [ex_up ''10.0.0.1'', ex_up ''10.0.0.2'']"
  by (simp_all add: AddNodeAlive_def ex_parse_values AddNode_def persisted_nodes_def
      ex_joined_def ex_defs key_defs store_defs server_defs)

lemma Reorganize_stuck_example:
  "Reorganize ex_stuck [] =
     Some [ex_up_at ''10.0.0.1'' 5002, ex_up_at ''10.0.0.2'' 5001, ex_up_at ''10.0.0.3'' 5001,
           ex_up_at ''10.0.0.1'' 5001]"
proof -
  let ?a1 = "ex_up_at ''10.0.0.1'' 5001" and ?a2 = "ex_up_at ''10.0.0.1'' 5002"
  let ?b = "ex_up_at ''10.0.0.2'' 5001" and ?c = "ex_up_at ''10.0.0.3'' 5001"
  let ?e = "[(''10.0.0.1'', []), (''10.0.0.2'', []), (''10.0.0.3'', [])] :: (string \<times> NodeStatus list) list"
  have b: "foldl Reorganize_bucket [] ex_stuck =
      [(''10.0.0.1'', [?a1, ?a2]), (''10.0.0.2'', [?b]), (''10.0.0.3'', [?c])]"
    by (simp add: ex_stuck_def ex_up_at_def Reorganize_bucket_def)
  have 1: "Reorganize_while [(''10.0.0.1'', [?a1, ?a2]), (''10.0.0.2'', [?b]), (''10.0.0.3'', [?c])] 3 0 [] =
      Reorganize_while [(''10.0.0.1'', [?a1]), (''10.0.0.2'', []), (''10.0.0.3'', [])] 3 0 [?a2, ?b, ?c]"
    by (subst Reorganize_while.simps) simp
  have 2: "Reorganize_while [(''10.0.0.1'', [?a1]), (''10.0.0.2'', []), (''10.0.0.3'', [])] 3 0 [?a2, ?b, ?c] =
      Reorganize_while ?e 3 2 [?a2, ?b, ?c, ?a1]"
    by (subst Reorganize_while.simps) simp
  have 3: "Reorganize_while ?e 3 2 [?a2, ?b, ?c, ?a1] = Reorganize_while ?e 3 5 [?a2, ?b, ?c, ?a1]"
    by (subst Reorganize_while.simps) simp
  have w: "(5::32 word) + of_nat 2863311530 * 3 = 3" by simp
  have 4: "Reorganize_while ?e 3 5 [?a2, ?b, ?c, ?a1] = Some [?a2, ?b, ?c, ?a1]"
    by (rule Reorganize_while_wraps [OF _ _ w]) simp_all
  show ?thesis
    unfolding Reorganize_def Let_def b using 1 2 3 4 by simp
qed

lemma InitVersion_fresh:
  assumes "faults (floyd_m s) = []" and "kv (floyd_m s) ZP_META_KEY_MT = None"
  shows "InitVersion s = Some (OK, s\<lparr>version_m := - 1\<rparr>)"
  using assms by (subst InitVersion.simps) (simp add: floyd_Read_def no_fault)

lemma Distribute_four:
  assumes "faults (floyd_m s) = []"
    and "kv (floyd_m s) ZP_META_KEY_PN = None"
    and "kv (floyd_m s) ZP_META_KEY_ND = Some (NodesBytes nodes)"
    and "GetAllAliveNode nodes [] \<noteq> []"
    and "Reorganize (GetAllAliveNode nodes []) [] = Some [a, b, c]"
  shows "\<exists>s2. Distribute s 4 = Returns (OK, s2) \<and>
           kv (floyd_m s2) ZP_META_KEY_PN = Some (Text ''4'') \<and>
           kv (floyd_m s2) ZP_META_KEY_MT =
             Some (PullBytes
               \<lparr>version = version_m s + 1,
                info = [\<lparr>p_id = 0, master = node a, slaves = [node b, node c]\<rparr>,
                        \<lparr>p_id = 1, master = node b, slaves = [node c, node a]\<rparr>,
                        \<lparr>p_id = 2, master = node c, slaves = [node a, node b]\<rparr>,
                        \<lparr>p_id = 3, master = node a, slaves = [node b, node c]\<rparr>]\<rparr>) \<and>
           version_m s2 = version_m s + 1"
  using assms
  by (simp add: Distribute_def PartitionNums_no_fault Distribute_placement_def
      GetAllNode_no_fault Distribute_for.simps SetReplicaset_def SetMSInfo_def Set_def
      Write_no_fault ok_def Let_def key_defs to_string_def to_string_nat.simps digit_char_def)

lemma three_hosts_sorted:
  assumes "distinct [ip (node x), ip (node y), ip (node z)]"
  shows "\<exists>a b c. Reorganize [x, y, z] [] = Some [a, b, c] \<and>
           set [a, b, c] = {x, y, z} \<and>
           ip (node a) < ip (node b) \<and> ip (node b) < ip (node c)"
proof -
  let ?x = "ip (node x)" and ?y = "ip (node y)" and ?z = "ip (node z)"
  from assms have d: "?x \<noteq> ?y" "?x \<noteq> ?z" "?y \<noteq> ?z" by simp_all
  then consider "?x < ?y \<and> ?y < ?z" | "?x < ?z \<and> ?z < ?y" | "?y < ?x \<and> ?x < ?z"
    | "?y < ?z \<and> ?z < ?x" | "?z < ?x \<and> ?x < ?y" | "?z < ?y \<and> ?y < ?x"
    using less_linear [of ?x ?y] less_linear [of ?x ?z] less_linear [of ?y ?z] by auto
  then show ?thesis
  proof cases
    case 1
    then have "Reorganize [x, y, z] [] = Some [x, y, z]" by (intro Reorganize_three(1)) simp_all
    with 1 show ?thesis by (intro exI [of _ x] exI [of _ y] exI [of _ z]) auto
  next
    case 2
    then have "Reorganize [x, y, z] [] = Some [x, z, y]" by (intro Reorganize_three(2)) simp_all
    with 2 show ?thesis by (intro exI [of _ x] exI [of _ z] exI [of _ y]) auto
  next
    case 3
    then have "Reorganize [x, y, z] [] = Some [y, x, z]" by (intro Reorganize_three(3)) simp_all
    with 3 show ?thesis by (intro exI [of _ y] exI [of _ x] exI [of _ z]) auto
  next
    case 4
    then have "Reorganize [x, y, z] [] = Some [y, z, x]" by (intro Reorganize_three(5)) simp_all
    with 4 show ?thesis by (intro exI [of _ y] exI [of _ z] exI [of _ x]) auto
  next
    case 5
    then have "Reorganize [x, y, z] [] = Some [z, x, y]" by (intro Reorganize_three(4)) simp_all
    with 5 show ?thesis by (intro exI [of _ z] exI [of _ x] exI [of _ y]) auto
  next
    case 6
    then have "Reorganize [x, y, z] [] = Some [z, y, x]" by (intro Reorganize_three(6)) simp_all
    with 6 show ?thesis by (intro exI [of _ z] exI [of _ y] exI [of _ x]) auto
  qed
qed

lemma Distribute_unordered:
  "map_option fst (returned (Distribute (ex_unordered\<lparr>version_m := - 1\<rparr>) 4)) = Some OK"
  "map_option (\<lambda>r. kv (floyd_m (snd r)) ZP_META_KEY_PN)
     (returned (Distribute (ex_unordered\<lparr>version_m := - 1\<rparr>) 4)) = Some (Some (Text ''4''))"
  "map_option (\<lambda>r. kv (floyd_m (snd r)) ZP_META_KEY_MT)
     (returned (Distribute (ex_unordered\<lparr>version_m := - 1\<rparr>) 4)) =
     Some (Some (PullBytes ex_bootstrap_table))"
  by (simp_all add: returned_def ex_unordered_def ex_unordered_nodes_def ex_down_def
      ex_bootstrap_table_def ex_defs key_defs store_defs server_defs distribute_defs reorg_defs)

text \<open>
  With four buckets the count goes from 6 in steps of 4 and never meets 4, also after it has
  wrapped around: the loop does not return for three nodes on one host and one on each of
  three others.
\<close>

lemma count_never_four: "(6::32 word) + of_nat k * 4 \<noteq> 4"
proof
  assume eq: "(6::32 word) + of_nat k * 4 = 4"
  have u: "unat ((6::32 word) + of_nat k * 4) = unat (4::32 word)"
    by (rule arg_cong [OF eq])
  have l: "unat ((6::32 word) + of_nat k * 4) = (6 + k * 4) mod 4294967296"
    by (simp add: unat_word_ariths unat_of_nat mod_simps)
  from u l have "(6 + k * 4) mod 4294967296 = 4" by simp
  then have "(6 + k * 4) mod 4294967296 mod 4 = 0" by simp
  moreover have "(6 + k * 4) mod 4294967296 mod 4 = (6 + k * 4) mod 4"
    by (rule mod_mod_cancel) simp
  moreover have "(6 + k * 4) mod 4 = 2" by simp
  ultimately show False by simp
qed

lemma Reorganize_never_example: "Reorganize ex_never [] = None"
proof -
  let ?a1 = "ex_up_at ''10.0.0.1'' 5001" and ?a2 = "ex_up_at ''10.0.0.1'' 5002"
  let ?a3 = "ex_up_at ''10.0.0.1'' 5003"
  let ?b = "ex_up_at ''10.0.0.2'' 5001" and ?c = "ex_up_at ''10.0.0.3'' 5001"
  let ?d = "ex_up_at ''10.0.0.4'' 5001"
  let ?e = "[(''10.0.0.1'', []), (''10.0.0.2'', []), (''10.0.0.3'', []), (''10.0.0.4'', [])]
              :: (string \<times> NodeStatus list) list"
  let ?out = "[?a3, ?b, ?c, ?d, ?a2, ?a1]"
  have b: "foldl Reorganize_bucket [] ex_never =
      [(''10.0.0.1'', [?a1, ?a2, ?a3]), (''10.0.0.2'', [?b]), (''10.0.0.3'', [?c]),
       (''10.0.0.4'', [?d])]"
    by (simp add: ex_never_def ex_up_at_def Reorganize_bucket_def)
  have 1: "Reorganize_while [(''10.0.0.1'', [?a1, ?a2, ?a3]), (''10.0.0.2'', [?b]),
        (''10.0.0.3'', [?c]), (''10.0.0.4'', [?d])] 4 0 [] =
      Reorganize_while [(''10.0.0.1'', [?a1, ?a2]), (''10.0.0.2'', []), (''10.0.0.3'', []),
        (''10.0.0.4'', [])] 4 0 [?a3, ?b, ?c, ?d]"
    by (subst Reorganize_while.simps) simp
  have 2: "Reorganize_while [(''10.0.0.1'', [?a1, ?a2]), (''10.0.0.2'', []), (''10.0.0.3'', []),
        (''10.0.0.4'', [])] 4 0 [?a3, ?b, ?c, ?d] =
      Reorganize_while [(''10.0.0.1'', [?a1]), (''10.0.0.2'', []), (''10.0.0.3'', []),
        (''10.0.0.4'', [])] 4 3 [?a3, ?b, ?c, ?d, ?a2]"
    by (subst Reorganize_while.simps) simp
  have 3: "Reorganize_while [(''10.0.0.1'', [?a1]), (''10.0.0.2'', []), (''10.0.0.3'', []),
        (''10.0.0.4'', [])] 4 3 [?a3, ?b, ?c, ?d, ?a2] =
      Reorganize_while ?e 4 6 ?out"
    by (subst Reorganize_while.simps) simp
  have 4: "Reorganize_while ?e 4 6 ?out = None"
    by (rule Reorganize_while_never) (simp_all add: count_never_four)
  show ?thesis
    unfolding Reorganize_def Let_def b using 1 2 3 4 by simp
qed

section \<open>The version of a written table\<close>

text \<open>
  C1. Whichever of \<open>Distribute\<close>, \<open>OffNode\<close> and \<open>OnNode\<close> runs, it issues at most one write of
  the partitions table. If it issues none, or the write fails, the cached version stays as it
  was. If the write succeeds, the version in the written table is the cached version before
  the call plus one, the table is what the store holds under its key afterwards, and the
  cached version has grown by exactly one.
\<close>

theorem version_plus_one:
  assumes "run_op op s = Returns (st, s')"
  shows "(mt_writes s' = mt_writes s \<and> version_m s' = version_m s) \<or>
         (\<exists>t. mt_writes s' = mt_writes s @ [(PullBytes t, False)] \<and>
               version_m s' = version_m s) \<or>
         (\<exists>t. mt_writes s' = mt_writes s @ [(PullBytes t, True)] \<and>
               kv (floyd_m s') ZP_META_KEY_MT = Some (PullBytes t) \<and>
               version t = version_m s + 1 \<and> version_m s' = version_m s + 1)"
proof -
  have "mt_unchanged s s' \<or> (\<exists>t b. mt_written s t b s')"
  proof (cases op)
    case (Op_Distribute num)
    with assms show ?thesis by (auto dest: Distribute_effect)
  next
    case (Op_OffNode ip0 port0)
    with assms show ?thesis by (auto dest: OffNode_effect)
  next
    case (Op_OnNode ip0 port0)
    with assms show ?thesis by (auto dest: OnNode_effect)
  qed
  then show ?thesis
  proof
    assume "mt_unchanged s s'"
    then show ?thesis by (simp add: mt_unchanged_def)
  next
    assume "\<exists>t b. mt_written s t b s'"
    then obtain t b where "mt_written s t b s'" by blast
    then show ?thesis by (cases b) (auto simp: mt_written_def)
  qed
qed

theorem version_plus_one_witness:
  "run_op (Op_OnNode ''10.0.0.1'' 5000) ex_orphan = Returns (OK, ex_promoted) \<and>
   mt_writes ex_promoted = mt_writes ex_orphan @ [(PullBytes ex_promoted_table, True)] \<and>
   kv (floyd_m ex_promoted) ZP_META_KEY_MT = Some (PullBytes ex_promoted_table) \<and>
   version ex_promoted_table = version_m ex_orphan + 1 \<and>
   version_m ex_promoted = version_m ex_orphan + 1"
proof -
  have h: "run_op (Op_OnNode ''10.0.0.1'' 5000) ex_orphan = Returns (OK, ex_promoted)"
    by (simp add: OnNode_ex_orphan)
  have w: "mt_writes ex_promoted = mt_writes ex_orphan @ [(PullBytes ex_promoted_table, True)]"
    by (simp add: mt_writes_def ex_promoted_def ex_orphan_def ex_defs)
  from version_plus_one [OF h] w h show ?thesis
    by auto
qed

section \<open>The master that leaves\<close>

text \<open>
  C2, as amended. Let \<open>OffNode\<close> return ok for an endpoint that is the master of the
  partition at index \<open>i\<close> of the stored table, and let the set of nodes that are up be taken
  from the nodes table as it is before the call (the endpoint itself still counts as up if it
  was). Then the store holds a table of the same length afterwards in which, if some slave of
  the partition is up, the first such slave, at index \<open>j\<close>, is the master and the endpoint is
  in slot \<open>j\<close> of the slaves; the new master differs from the endpoint when the endpoint is not
  one of the slaves, and is not the empty endpoint when the empty endpoint is not up. If no
  slave is up, the master is the empty endpoint and the endpoint is appended to the slaves.
\<close>

theorem OffNode_promotes:
  assumes "OffNode s ip0 port0 = (OK, s')"
    and "kv (floyd_m s) ZP_META_KEY_MT = Some (PullBytes t)"
    and "kv (floyd_m s) ZP_META_KEY_ND = Some (NodesBytes nodes)"
    and "i < length (info t)"
    and "master (info t ! i) = \<lparr>ip = ip0, port = port0\<rparr>"
  shows "\<exists>t'. kv (floyd_m s') ZP_META_KEY_MT = Some (PullBytes t') \<and>
           length (info t') = length (info t) \<and>
           ((\<exists>n\<in>set (slaves (info t ! i)). up_in nodes n) \<longrightarrow>
              (\<exists>j<length (slaves (info t ! i)).
                 up_in nodes (slaves (info t ! i) ! j) \<and>
                 (\<forall>k<j. \<not> up_in nodes (slaves (info t ! i) ! k)) \<and>
                 master (info t' ! i) = slaves (info t ! i) ! j \<and>
                 slaves (info t' ! i) = (slaves (info t ! i))[j := \<lparr>ip = ip0, port = port0\<rparr>] \<and>
                 (\<lparr>ip = ip0, port = port0\<rparr> \<notin> set (slaves (info t ! i)) \<longrightarrow>
                    master (info t' ! i) \<noteq> \<lparr>ip = ip0, port = port0\<rparr>) \<and>
                 (\<not> up_in nodes \<lparr>ip = [], port = 0\<rparr> \<longrightarrow>
                    master (info t' ! i) \<noteq> \<lparr>ip = [], port = 0\<rparr>))) \<and>
           ((\<forall>n\<in>set (slaves (info t ! i)). \<not> up_in nodes n) \<longrightarrow>
              master (info t' ! i) = \<lparr>ip = [], port = 0\<rparr> \<and>
              slaves (info t' ! i) = slaves (info t ! i) @ [\<lparr>ip = ip0, port = port0\<rparr>])"
proof -
  let ?p = "info t ! i"
  let ?e = "\<lparr>ip = ip0, port = port0\<rparr>"
  let ?infos = "map (\<lambda>p. snd (OffNode_partition (GetAllAliveNode nodes []) ip0 port0 p)) (info t)"
  from assms(4) have pin: "?p \<in> set (info t)" by simp
  with assms(5) have ch: "\<exists>p\<in>set (info t). is_master_of ip0 port0 p"
    by (auto simp: is_master_of_eq)
  from OffNode_cases [OF assms(1)] assms(2,3) ch
  obtain s3 where "mt_unchanged s s3" and rw: "rewritten s3 ?infos OK s'" by auto
  let ?t' = "\<lparr>version = version_m s3 + 1, info = ?infos\<rparr>"
  from rw have mt: "kv (floyd_m s') ZP_META_KEY_MT = Some (PullBytes ?t')"
    by (simp add: rewritten_def Let_def)
  have len: "length ?infos = length (info t)" by simp
  have pi: "?infos ! i = snd (OffNode_partition (GetAllAliveNode nodes []) ip0 port0 ?p)"
    using assms(4) by simp
  note pc = OffNode_partition_cases [OF assms(5), of nodes]
  have up: "(\<exists>n\<in>set (slaves ?p). up_in nodes n) \<longrightarrow>
              (\<exists>j<length (slaves ?p).
                 up_in nodes (slaves ?p ! j) \<and> (\<forall>k<j. \<not> up_in nodes (slaves ?p ! k)) \<and>
                 master (?infos ! i) = slaves ?p ! j \<and>
                 slaves (?infos ! i) = (slaves ?p)[j := ?e] \<and>
                 (?e \<notin> set (slaves ?p) \<longrightarrow> master (?infos ! i) \<noteq> ?e) \<and>
                 (\<not> up_in nodes \<lparr>ip = [], port = 0\<rparr> \<longrightarrow>
                    master (?infos ! i) \<noteq> \<lparr>ip = [], port = 0\<rparr>))"
  proof
    assume "\<exists>n\<in>set (slaves ?p). up_in nodes n"
    with pc obtain j where j: "j < length (slaves ?p)" "up_in nodes (slaves ?p ! j)"
      "\<forall>k<j. \<not> up_in nodes (slaves ?p ! k)"
      and res: "snd (OffNode_partition (GetAllAliveNode nodes []) ip0 port0 ?p) =
           ?p\<lparr>master := slaves ?p ! j, slaves := (slaves ?p)[j := ?e]\<rparr>"
      by blast
    have m: "master (?infos ! i) = slaves ?p ! j" and sl: "slaves (?infos ! i) = (slaves ?p)[j := ?e]"
      by (simp_all add: pi res)
    have a: "?e \<notin> set (slaves ?p) \<longrightarrow> master (?infos ! i) \<noteq> ?e"
      using j(1) m by (metis nth_mem)
    have b: "\<not> up_in nodes \<lparr>ip = [], port = 0\<rparr> \<longrightarrow> master (?infos ! i) \<noteq> \<lparr>ip = [], port = 0\<rparr>"
      using j(2) m by metis
    from j m sl a b show "\<exists>j<length (slaves ?p).
                 up_in nodes (slaves ?p ! j) \<and> (\<forall>k<j. \<not> up_in nodes (slaves ?p ! k)) \<and>
                 master (?infos ! i) = slaves ?p ! j \<and>
                 slaves (?infos ! i) = (slaves ?p)[j := ?e] \<and>
                 (?e \<notin> set (slaves ?p) \<longrightarrow> master (?infos ! i) \<noteq> ?e) \<and>
                 (\<not> up_in nodes \<lparr>ip = [], port = 0\<rparr> \<longrightarrow>
                    master (?infos ! i) \<noteq> \<lparr>ip = [], port = 0\<rparr>)"
      by blast
  qed
  have down: "(\<forall>n\<in>set (slaves ?p). \<not> up_in nodes n) \<longrightarrow>
              master (?infos ! i) = \<lparr>ip = [], port = 0\<rparr> \<and>
              slaves (?infos ! i) = slaves ?p @ [?e]"
    using pc by (auto simp: pi)
  from mt len up down show ?thesis
    by (intro exI [of _ ?t']) simp
qed

theorem OffNode_promotes_witness:
  "fst (OffNode ex_led ''10.0.0.1'' 5000) = OK \<and>
   kv (floyd_m ex_led) ZP_META_KEY_MT = Some (PullBytes ex_led_table) \<and>
   kv (floyd_m ex_led) ZP_META_KEY_ND = Some (NodesBytes ex_led_nodes) \<and>
   0 < length (info ex_led_table) \<and>
   master (info ex_led_table ! 0) = \<lparr>ip = ''10.0.0.1'', port = 5000\<rparr> \<and>
   slaves (info ex_led_table ! 0) = [ex_node ''10.0.0.2'', ex_node ''10.0.0.3''] \<and>
   \<not> up_in ex_led_nodes (ex_node ''10.0.0.2'') \<and>
   up_in ex_led_nodes (ex_node ''10.0.0.3'') \<and>
   (\<exists>t'. kv (floyd_m (snd (OffNode ex_led ''10.0.0.1'' 5000))) ZP_META_KEY_MT =
            Some (PullBytes t') \<and>
          length (info t') = 1 \<and>
          master (info t' ! 0) = ex_node ''10.0.0.3'' \<and>
          slaves (info t' ! 0) = [ex_node ''10.0.0.2'', \<lparr>ip = ''10.0.0.1'', port = 5000\<rparr>])"
proof -
  have h1: "OffNode ex_led ''10.0.0.1'' 5000 = (OK, snd (OffNode ex_led ''10.0.0.1'' 5000))"
    using OffNode_ex_led(1) by (simp add: prod_eq_iff)
  have h2: "kv (floyd_m ex_led) ZP_META_KEY_MT = Some (PullBytes ex_led_table)"
    by (simp add: ex_led_def ex_defs key_defs)
  have h3: "kv (floyd_m ex_led) ZP_META_KEY_ND = Some (NodesBytes ex_led_nodes)"
    by (simp add: ex_led_def ex_defs key_defs)
  have h4: "0 < length (info ex_led_table)"
    by (simp add: ex_led_table_def)
  have h5: "master (info ex_led_table ! 0) = \<lparr>ip = ''10.0.0.1'', port = 5000\<rparr>"
    by (simp add: ex_led_table_def ex_defs)
  have sl: "slaves (info ex_led_table ! 0) = [ex_node ''10.0.0.2'', ex_node ''10.0.0.3'']"
    by (simp add: ex_led_table_def)
  have up: "\<not> up_in ex_led_nodes (ex_node ''10.0.0.2'')" "up_in ex_led_nodes (ex_node ''10.0.0.3'')"
    by (simp_all add: up_in_def ex_led_nodes_def ex_down_def ex_defs)
  from OffNode_promotes [OF h1 h2 h3 h4 h5] obtain t' where
    t': "kv (floyd_m (snd (OffNode ex_led ''10.0.0.1'' 5000))) ZP_META_KEY_MT = Some (PullBytes t')"
    and len: "length (info t') = length (info ex_led_table)"
    by blast
  from t' OffNode_ex_led(2)
  have "master (info t' ! 0) = ex_node ''10.0.0.3''"
    "slaves (info t' ! 0) = [ex_node ''10.0.0.2'', \<lparr>ip = ''10.0.0.1'', port = 5000\<rparr>]"
    by (auto simp: ex_defs)
  with t' len have "\<exists>t'. kv (floyd_m (snd (OffNode ex_led ''10.0.0.1'' 5000))) ZP_META_KEY_MT =
            Some (PullBytes t') \<and>
          length (info t') = 1 \<and>
          master (info t' ! 0) = ex_node ''10.0.0.3'' \<and>
          slaves (info t' ! 0) = [ex_node ''10.0.0.2'', \<lparr>ip = ''10.0.0.1'', port = 5000\<rparr>]"
    by (intro exI [of _ t']) (simp add: ex_led_table_def)
  with OffNode_ex_led(1) h2 h3 h4 h5 sl up show ?thesis by blast
qed

text \<open>
  C2 as stated fails in a cluster of one node: the endpoint is its own first slave and is
  still up in the set computed before it is marked down, so it stays the master.
\<close>

theorem OffNode_same_master_counterexample:
  "fst (OffNode ex_single ''10.0.0.1'' 5000) = OK \<and>
   kv (floyd_m ex_single) ZP_META_KEY_ND = Some (NodesBytes [ex_up ''10.0.0.1'']) \<and>
   kv (floyd_m ex_single) ZP_META_KEY_MT = Some (PullBytes ex_single_table) \<and>
   master (info ex_single_table ! 0) = \<lparr>ip = ''10.0.0.1'', port = 5000\<rparr> \<and>
   up_in [ex_up ''10.0.0.1''] (slaves (info ex_single_table ! 0) ! 0) \<and>
   kv (floyd_m (snd (OffNode ex_single ''10.0.0.1'' 5000))) ZP_META_KEY_MT =
     Some (PullBytes \<lparr>version = 1,
       info = [\<lparr>p_id = 0, master = \<lparr>ip = ''10.0.0.1'', port = 5000\<rparr>,
                slaves = [ex_node ''10.0.0.1'', ex_node ''10.0.0.1'']\<rparr>]\<rparr>)"
  by (simp add: OffNode_ex_single)
     (simp add: ex_single_def ex_single_table_def ex_defs key_defs up_in_def)

section \<open>The slave that returns\<close>

text \<open>
  C3, as amended. Let \<open>OnNode\<close> return ok for an endpoint that is among the slaves of the
  partition at index \<open>i\<close> of the stored table, a partition whose master is the empty endpoint.
  Then the store holds a table of the same length afterwards in which the endpoint is the
  master of that partition and the slaves are one fewer: with \<open>j\<close> the first index of the
  endpoint among the former slaves, every remaining slot holds what it held, except slot \<open>j\<close>,
  which holds the former last slave if it remains at all (it does not when \<open>j\<close> was the last
  index).
\<close>

theorem OnNode_promotes:
  assumes "OnNode s ip0 port0 = (OK, s')"
    and "kv (floyd_m s) ZP_META_KEY_MT = Some (PullBytes t)"
    and "i < length (info t)"
    and "master (info t ! i) = \<lparr>ip = [], port = 0\<rparr>"
    and "\<lparr>ip = ip0, port = port0\<rparr> \<in> set (slaves (info t ! i))"
  shows "\<exists>t'. kv (floyd_m s') ZP_META_KEY_MT = Some (PullBytes t') \<and>
           length (info t') = length (info t) \<and>
           master (info t' ! i) = \<lparr>ip = ip0, port = port0\<rparr> \<and>
           Suc (length (slaves (info t' ! i))) = length (slaves (info t ! i)) \<and>
           (\<exists>j<length (slaves (info t ! i)).
              slaves (info t ! i) ! j = \<lparr>ip = ip0, port = port0\<rparr> \<and>
              (\<forall>k<j. slaves (info t ! i) ! k \<noteq> \<lparr>ip = ip0, port = port0\<rparr>) \<and>
              (\<forall>k<length (slaves (info t' ! i)).
                 slaves (info t' ! i) ! k =
                   (if k = j then last (slaves (info t ! i)) else slaves (info t ! i) ! k)))"
proof -
  let ?p = "info t ! i"
  let ?infos = "snd (OnNode_for ip0 port0 (info t))"
  let ?t' = "\<lparr>version = version_m s + 1, info = ?infos\<rparr>"
  from assms(3) have pin: "?p \<in> set (info t)" by simp
  with assms(4,5) have ch: "fst (OnNode_for ip0 port0 (info t))"
    by (auto simp: OnNode_for_fst OnNode_partition_fst)
  from OnNode_cases [OF assms(1)] assms(2) ch
  have "rewritten s ?infos OK s'" by auto
  then have mt: "kv (floyd_m s') ZP_META_KEY_MT = Some (PullBytes ?t')"
    by (simp add: rewritten_def Let_def)
  have len: "length ?infos = length (info t)"
    by (simp add: OnNode_for_snd)
  have pi: "?infos ! i = snd (OnNode_partition ip0 port0 ?p)"
    using assms(3) by (simp add: OnNode_for_snd)
  from OnNode_partition_promote [OF assms(4,5)] obtain j where
    jl: "j < length (slaves ?p)" and sj: "slaves ?p ! j = \<lparr>ip = ip0, port = port0\<rparr>"
    and before: "\<forall>k<j. slaves ?p ! k \<noteq> \<lparr>ip = ip0, port = port0\<rparr>"
    and res: "snd (OnNode_partition ip0 port0 ?p) =
       ?p\<lparr>master := \<lparr>ip = ip0, port = port0\<rparr>,
          slaves := butlast ((slaves ?p)[j := last (slaves ?p)])\<rparr>"
    by blast
  have m: "master (?infos ! i) = \<lparr>ip = ip0, port = port0\<rparr>"
    by (simp add: pi res)
  have sl: "slaves (?infos ! i) = butlast ((slaves ?p)[j := last (slaves ?p)])"
    by (simp add: pi res)
  have l: "Suc (length (slaves (?infos ! i))) = length (slaves ?p)"
    using jl by (simp add: sl)
  have nth: "\<forall>k<length (slaves (?infos ! i)).
      slaves (?infos ! i) ! k = (if k = j then last (slaves ?p) else slaves ?p ! k)"
    using jl by (auto simp: sl nth_butlast nth_list_update)
  have "\<exists>j<length (slaves ?p).
          slaves ?p ! j = \<lparr>ip = ip0, port = port0\<rparr> \<and>
          (\<forall>k<j. slaves ?p ! k \<noteq> \<lparr>ip = ip0, port = port0\<rparr>) \<and>
          (\<forall>k<length (slaves (?infos ! i)).
             slaves (?infos ! i) ! k = (if k = j then last (slaves ?p) else slaves ?p ! k))"
    using jl sj before nth by blast
  with mt len m l show ?thesis
    by (intro exI [of _ ?t']) simp
qed

theorem OnNode_promotes_witness:
  "fst (OnNode ex_orphan3 ''10.0.0.1'' 5000) = OK \<and>
   kv (floyd_m ex_orphan3) ZP_META_KEY_MT = Some (PullBytes ex_orphan3_table) \<and>
   0 < length (info ex_orphan3_table) \<and>
   master (info ex_orphan3_table ! 0) = \<lparr>ip = [], port = 0\<rparr> \<and>
   slaves (info ex_orphan3_table ! 0) =
     [\<lparr>ip = ''10.0.0.1'', port = 5000\<rparr>, ex_node ''10.0.0.2'', ex_node ''10.0.0.3''] \<and>
   (\<exists>t'. kv (floyd_m (snd (OnNode ex_orphan3 ''10.0.0.1'' 5000))) ZP_META_KEY_MT =
            Some (PullBytes t') \<and>
          length (info t') = 1 \<and>
          master (info t' ! 0) = \<lparr>ip = ''10.0.0.1'', port = 5000\<rparr> \<and>
          slaves (info t' ! 0) = [ex_node ''10.0.0.3'', ex_node ''10.0.0.2''])"
proof -
  have h1: "OnNode ex_orphan3 ''10.0.0.1'' 5000 = (OK, snd (OnNode ex_orphan3 ''10.0.0.1'' 5000))"
    using OnNode_ex_orphan3(1) by (simp add: prod_eq_iff)
  have h2: "kv (floyd_m ex_orphan3) ZP_META_KEY_MT = Some (PullBytes ex_orphan3_table)"
    by (simp add: ex_orphan3_def ex_defs key_defs)
  have h3: "0 < length (info ex_orphan3_table)"
    by (simp add: ex_orphan3_table_def)
  have h4: "master (info ex_orphan3_table ! 0) = \<lparr>ip = [], port = 0\<rparr>"
    by (simp add: ex_orphan3_table_def)
  have sl: "slaves (info ex_orphan3_table ! 0) =
     [\<lparr>ip = ''10.0.0.1'', port = 5000\<rparr>, ex_node ''10.0.0.2'', ex_node ''10.0.0.3'']"
    by (simp add: ex_orphan3_table_def ex_defs)
  then have h5: "\<lparr>ip = ''10.0.0.1'', port = 5000\<rparr> \<in> set (slaves (info ex_orphan3_table ! 0))"
    by simp
  from OnNode_promotes [OF h1 h2 h3 h4 h5] obtain t' where
    t': "kv (floyd_m (snd (OnNode ex_orphan3 ''10.0.0.1'' 5000))) ZP_META_KEY_MT = Some (PullBytes t')"
    and len: "length (info t') = length (info ex_orphan3_table)"
    and m: "master (info t' ! 0) = \<lparr>ip = ''10.0.0.1'', port = 5000\<rparr>"
    by blast
  from t' OnNode_ex_orphan3(2)
  have "slaves (info t' ! 0) = [ex_node ''10.0.0.3'', ex_node ''10.0.0.2'']"
    by auto
  with t' len m h3 have "\<exists>t'. kv (floyd_m (snd (OnNode ex_orphan3 ''10.0.0.1'' 5000))) ZP_META_KEY_MT =
            Some (PullBytes t') \<and>
          length (info t') = 1 \<and>
          master (info t' ! 0) = \<lparr>ip = ''10.0.0.1'', port = 5000\<rparr> \<and>
          slaves (info t' ! 0) = [ex_node ''10.0.0.3'', ex_node ''10.0.0.2'']"
    by (intro exI [of _ t']) (simp add: ex_orphan3_table_def)
  with OnNode_ex_orphan3(1) h2 h3 h4 sl show ?thesis by blast
qed

text \<open>
  C3 as stated fails when the endpoint is the last slave: the list of slaves loses its last
  slot, and there is no slot \<open>j\<close> left for the former last slave to occupy.
\<close>

theorem OnNode_last_slot_counterexample:
  "OnNode ex_orphan ''10.0.0.1'' 5000 = (OK, ex_promoted) \<and>
   kv (floyd_m ex_orphan) ZP_META_KEY_MT = Some (PullBytes ex_orphan_table) \<and>
   master (info ex_orphan_table ! 0) = \<lparr>ip = [], port = 0\<rparr> \<and>
   slaves (info ex_orphan_table ! 0) ! 0 = \<lparr>ip = ''10.0.0.1'', port = 5000\<rparr> \<and>
   kv (floyd_m ex_promoted) ZP_META_KEY_MT = Some (PullBytes ex_promoted_table) \<and>
   master (info ex_promoted_table ! 0) = \<lparr>ip = ''10.0.0.1'', port = 5000\<rparr> \<and>
   \<not> 0 < length (slaves (info ex_promoted_table ! 0))"
  by (simp add: OnNode_ex_orphan)
     (simp add: ex_orphan_def ex_promoted_def ex_orphan_table_def ex_promoted_table_def ex_defs)

section \<open>Reorganize on hosts of unequal size\<close>

text \<open>
  C4. \<open>Reorganize\<close> is meant to stop when every bucket is empty and so to return every node
  of its input once. With four nodes on one host and one on another it stops while the
  larger bucket still holds a node, and the first node of the input is not in its output:
  \<open>empty_count\<close> keeps the empty buckets counted in earlier passes and meets the number of
  buckets after the third pass.
\<close>

theorem Reorganize_omits_node:
  "Reorganize ex_uneven [] =
     Some [ex_up_at ''10.0.0.1'' 5004, ex_up_at ''10.0.0.2'' 5001,
           ex_up_at ''10.0.0.1'' 5003, ex_up_at ''10.0.0.1'' 5002] \<and>
   ex_up_at ''10.0.0.1'' 5001 \<in> set ex_uneven \<and>
   ex_up_at ''10.0.0.1'' 5001 \<notin>
     set [ex_up_at ''10.0.0.1'' 5004, ex_up_at ''10.0.0.2'' 5001,
          ex_up_at ''10.0.0.1'' 5003, ex_up_at ''10.0.0.1'' 5002]"
  by (simp add: ex_uneven_def ex_up_at_def reorg_defs)

section \<open>Distribute runs once\<close>

text \<open>
  C5, as amended. Let no call of the store fail, let the partition number be unset, let the
  nodes table hold at least one node that is up and let \<open>Reorganize\<close> return on the nodes that
  are up. Then for every \<open>num\<close> other than zero in the range of \<open>int\<close> below its maximum, the
  first \<open>Distribute\<close> returns ok and stores \<open>num\<close> as the partition number, and every later
  call of a sequence returns the corruption status \<open>Already Distribute\<close> and leaves the server
  as the first call left it. With a nodes table that can be read and holds no node that is
  up, \<open>Distribute\<close> returns the corruption status \<open>no nodes\<close> and changes nothing.
\<close>

theorem Distribute_once:
  "(faults (floyd_m s) = [] \<and> kv (floyd_m s) ZP_META_KEY_PN = None \<and>
    kv (floyd_m s) ZP_META_KEY_ND = Some (NodesBytes nodes) \<and>
    (\<exists>ns\<in>set nodes. status ns = 0) \<and>
    Reorganize (GetAllAliveNode nodes []) [] = Some alive \<and>
    num \<noteq> 0 \<and> - 2147483648 \<le> num \<and> num < 2147483647 \<longrightarrow>
    (\<exists>s1. Distribute s num = Returns (OK, s1) \<and>
          kv (floyd_m s1) ZP_META_KEY_PN = Some (Text (to_string num)) \<and>
          fst (PartitionNums s1) = Some num \<and>
          Distribute_seq s (num # nums) =
            Returns (OK # replicate (length nums) (Corruption ''Already Distribute''), s1))) \<and>
   (faults (floyd_m s) = [] \<and> kv (floyd_m s) ZP_META_KEY_PN = None \<and>
    kv (floyd_m s) ZP_META_KEY_ND = Some (NodesBytes nodes) \<and>
    (\<forall>ns\<in>set nodes. status ns \<noteq> 0) \<longrightarrow>
    Distribute s num = Returns (Corruption ''no nodes'', s))"
proof (intro conjI impI)
  assume h: "faults (floyd_m s) = [] \<and> kv (floyd_m s) ZP_META_KEY_PN = None \<and>
    kv (floyd_m s) ZP_META_KEY_ND = Some (NodesBytes nodes) \<and>
    (\<exists>ns\<in>set nodes. status ns = 0) \<and>
    Reorganize (GetAllAliveNode nodes []) [] = Some alive \<and>
    num \<noteq> 0 \<and> - 2147483648 \<le> num \<and> num < 2147483647"
  then have r: "num \<noteq> 0" "- 2147483648 \<le> num" "num \<le> 2147483647" by simp_all
  from h Distribute_first [of s nodes alive num]
  obtain s1 where d: "Distribute s num = Returns (OK, s1)"
    and pn: "kv (floyd_m s1) ZP_META_KEY_PN = Some (Text (to_string num))"
    and nf: "faults (floyd_m s1) = []" by blast
  have "fst (PartitionNums s1) = Some num"
    using pn nf r by (simp add: PartitionNums_no_fault stoi_bytes_def stoi_to_string)
  moreover have "Distribute_seq s (num # nums) =
            Returns (OK # replicate (length nums) (Corruption ''Already Distribute''), s1)"
    using d Distribute_seq_rejects [OF pn r nf, of nums] by simp
  ultimately show "\<exists>s1. Distribute s num = Returns (OK, s1) \<and>
          kv (floyd_m s1) ZP_META_KEY_PN = Some (Text (to_string num)) \<and>
          fst (PartitionNums s1) = Some num \<and>
          Distribute_seq s (num # nums) =
            Returns (OK # replicate (length nums) (Corruption ''Already Distribute''), s1)"
    using d pn by blast
next
  assume "faults (floyd_m s) = [] \<and> kv (floyd_m s) ZP_META_KEY_PN = None \<and>
    kv (floyd_m s) ZP_META_KEY_ND = Some (NodesBytes nodes) \<and>
    (\<forall>ns\<in>set nodes. status ns \<noteq> 0)"
  then show "Distribute s num = Returns (Corruption ''no nodes'', s)"
    by (simp add: Distribute_no_nodes)
qed

theorem Distribute_once_witness:
  "faults (floyd_m ex_four_nodes) = [] \<and>
   kv (floyd_m ex_four_nodes) ZP_META_KEY_PN = None \<and>
   kv (floyd_m ex_four_nodes) ZP_META_KEY_ND = Some (NodesBytes ex_stuck) \<and>
   status (ex_up_at ''10.0.0.1'' 5001) = 0 \<and>
   Reorganize (GetAllAliveNode ex_stuck []) [] =
     Some [ex_up_at ''10.0.0.1'' 5002, ex_up_at ''10.0.0.2'' 5001, ex_up_at ''10.0.0.3'' 5001,
           ex_up_at ''10.0.0.1'' 5001] \<and>
   map_option fst (returned (Distribute_seq ex_four_nodes [4, 9, 2])) =
     Some [OK, Corruption ''Already Distribute'', Corruption ''Already Distribute''] \<and>
   map_option (\<lambda>r. kv (floyd_m (snd r)) ZP_META_KEY_PN)
     (returned (Distribute_seq ex_four_nodes [4, 9, 2])) = Some (Some (Text (to_string 4))) \<and>
   map_option (\<lambda>r. kv (floyd_m (snd r)) ZP_META_KEY_PN)
     (returned (Distribute ex_four_nodes 4)) = Some (Some (Text (to_string 4))) \<and>
   faults (floyd_m ex_all_down) = [] \<and>
   kv (floyd_m ex_all_down) ZP_META_KEY_PN = None \<and>
   kv (floyd_m ex_all_down) ZP_META_KEY_ND = Some (NodesBytes [ex_down ''10.0.0.1'']) \<and>
   status (ex_down ''10.0.0.1'') = 1 \<and>
   Distribute ex_all_down 4 = Returns (Corruption ''no nodes'', ex_all_down)"
proof -
  let ?alive = "[ex_up_at ''10.0.0.1'' 5002, ex_up_at ''10.0.0.2'' 5001,
                 ex_up_at ''10.0.0.3'' 5001, ex_up_at ''10.0.0.1'' 5001]"
  have a: "faults (floyd_m ex_four_nodes) = []"
    "kv (floyd_m ex_four_nodes) ZP_META_KEY_PN = None"
    "kv (floyd_m ex_four_nodes) ZP_META_KEY_ND = Some (NodesBytes ex_stuck)"
    by (simp_all add: ex_four_nodes_def ex_defs key_defs)
  have u: "status (ex_up_at ''10.0.0.1'' 5001) = 0" by (simp add: ex_up_at_def)
  have "ex_up_at ''10.0.0.1'' 5001 \<in> set ex_stuck" by (simp add: ex_stuck_def)
  with u have u': "\<exists>ns\<in>set ex_stuck. status ns = 0" by blast
  have g: "GetAllAliveNode ex_stuck [] = ex_stuck"
    by (simp add: GetAllAliveNode_def ex_stuck_def ex_up_at_def)
  have r: "Reorganize (GetAllAliveNode ex_stuck []) [] = Some ?alive"
    unfolding g by (rule Reorganize_stuck_example)
  have n: "(4::int) \<noteq> 0 \<and> - 2147483648 \<le> (4::int) \<and> (4::int) < 2147483647" by simp
  from Distribute_once [of ex_four_nodes ex_stuck ?alive 4 "[9, 2]"] a u' r n
  obtain s1 where d: "Distribute ex_four_nodes 4 = Returns (OK, s1)"
    and pn: "kv (floyd_m s1) ZP_META_KEY_PN = Some (Text (to_string 4))"
    and sq: "Distribute_seq ex_four_nodes [4, 9, 2] =
      Returns (OK # replicate (length [9, 2 :: int]) (Corruption ''Already Distribute''), s1)"
    by blast
  have b: "faults (floyd_m ex_all_down) = []"
    "kv (floyd_m ex_all_down) ZP_META_KEY_PN = None"
    "kv (floyd_m ex_all_down) ZP_META_KEY_ND = Some (NodesBytes [ex_down ''10.0.0.1''])"
    by (simp_all add: ex_all_down_def ex_defs key_defs)
  have dn: "status (ex_down ''10.0.0.1'') = 1" by (simp add: ex_down_def)
  then have dn': "\<forall>ns\<in>set [ex_down ''10.0.0.1'']. status ns \<noteq> 0" by simp
  from Distribute_once [of ex_all_down "[ex_down ''10.0.0.1'']" _ 4] b dn'
  have e: "Distribute ex_all_down 4 = Returns (Corruption ''no nodes'', ex_all_down)"
    by blast
  from a u r d pn sq b dn e show ?thesis
    by (simp add: returned_def)
qed

text \<open>
  C5 as stated fails for \<open>num = 0\<close>: the guard of \<open>Distribute\<close> lets a stored partition number
  of zero through, so a second call succeeds and replaces it.
\<close>

theorem Distribute_zero_counterexample:
  "map_option fst (returned (Distribute_seq ex_three_hosts [0, 4])) = Some [OK, OK] \<and>
   map_option (\<lambda>r. kv (floyd_m (snd r)) ZP_META_KEY_PN)
     (returned (Distribute_seq ex_three_hosts [0, 4])) = Some (Some (Text ''4'')) \<and>
   map_option (\<lambda>r. kv (floyd_m (snd r)) ZP_META_KEY_PN)
     (returned (Distribute_seq ex_three_hosts [0])) = Some (Some (Text ''0''))"
  by (simp add: returned_def ex_three_hosts_def ex_defs key_defs
      store_defs server_defs distribute_defs reorg_defs stoi_def isspace_def isdigit_def
      digit_val_def)

section \<open>The first table\<close>

text \<open>
  C6, as amended. Let no table and no partition number be stored, let exactly three nodes of
  the nodes table be up, on three different hosts, and let no call of the store fail. Then
  \<open>InitVersion\<close> returns and sets the cached version to \<open>-1\<close>, and the first \<open>Distribute\<close> for
  four partitions returns ok, stores 4 as the partition number and stores a table of version
  0 with the partitions 0 to 3: with \<open>a\<close>, \<open>b\<close>, \<open>c\<close> the three nodes in the ascending order of
  their hosts, whatever their order in the nodes table, the masters are \<open>a\<close>, \<open>b\<close>, \<open>c\<close>, \<open>a\<close>
  and the slaves of each partition are the two nodes that follow its master in the cycle.
\<close>

theorem bootstrap_version_zero:
  assumes "faults (floyd_m s) = []"
    and "kv (floyd_m s) ZP_META_KEY_MT = None"
    and "kv (floyd_m s) ZP_META_KEY_PN = None"
    and "kv (floyd_m s) ZP_META_KEY_ND = Some (NodesBytes nodes)"
    and "filter (\<lambda>ns. status ns = 0) nodes = [x, y, z]"
    and "distinct [ip (node x), ip (node y), ip (node z)]"
  shows "\<exists>a b c s2.
           InitVersion s = Some (OK, s\<lparr>version_m := - 1\<rparr>) \<and>
           Distribute (s\<lparr>version_m := - 1\<rparr>) 4 = Returns (OK, s2) \<and>
           kv (floyd_m s2) ZP_META_KEY_PN = Some (Text ''4'') \<and>
           kv (floyd_m s2) ZP_META_KEY_MT =
             Some (PullBytes
               \<lparr>version = 0,
                info = [\<lparr>p_id = 0, master = a, slaves = [b, c]\<rparr>,
                        \<lparr>p_id = 1, master = b, slaves = [c, a]\<rparr>,
                        \<lparr>p_id = 2, master = c, slaves = [a, b]\<rparr>,
                        \<lparr>p_id = 3, master = a, slaves = [b, c]\<rparr>]\<rparr>) \<and>
           version_m s2 = 0 \<and>
           set [a, b, c] = {node x, node y, node z} \<and>
           ip a < ip b \<and> ip b < ip c"
proof -
  let ?s1 = "s\<lparr>version_m := - 1\<rparr>"
  have iv: "InitVersion s = Some (OK, ?s1)"
    using assms(1,2) by (rule InitVersion_fresh)
  have al: "GetAllAliveNode nodes [] = [x, y, z]"
    using assms(5) by (simp add: GetAllAliveNode_def)
  from three_hosts_sorted [OF assms(6)] obtain a b c where
    r: "Reorganize [x, y, z] [] = Some [a, b, c]" and st: "set [a, b, c] = {x, y, z}"
    and o: "ip (node a) < ip (node b)" "ip (node b) < ip (node c)" by blast
  have h: "faults (floyd_m ?s1) = []" "kv (floyd_m ?s1) ZP_META_KEY_PN = None"
    "kv (floyd_m ?s1) ZP_META_KEY_ND = Some (NodesBytes nodes)"
    using assms(1,3,4) by simp_all
  have ne: "GetAllAliveNode nodes [] \<noteq> []" by (simp add: al)
  from Distribute_four [OF h ne, of a b c] r al obtain s2 where
    d: "Distribute ?s1 4 = Returns (OK, s2)"
    and pn: "kv (floyd_m s2) ZP_META_KEY_PN = Some (Text ''4'')"
    and mt: "kv (floyd_m s2) ZP_META_KEY_MT =
             Some (PullBytes
               \<lparr>version = version_m ?s1 + 1,
                info = [\<lparr>p_id = 0, master = node a, slaves = [node b, node c]\<rparr>,
                        \<lparr>p_id = 1, master = node b, slaves = [node c, node a]\<rparr>,
                        \<lparr>p_id = 2, master = node c, slaves = [node a, node b]\<rparr>,
                        \<lparr>p_id = 3, master = node a, slaves = [node b, node c]\<rparr>]\<rparr>)"
    and v: "version_m s2 = version_m ?s1 + 1"
    by auto
  from st have "node ` set [a, b, c] = node ` {x, y, z}" by simp
  then have st': "set [node a, node b, node c] = {node x, node y, node z}" by simp
  from iv d pn mt v st' o show ?thesis
    by (intro exI [of _ "node a"] exI [of _ "node b"] exI [of _ "node c"] exI [of _ s2]) simp
qed

theorem bootstrap_version_zero_witness:
  "faults (floyd_m ex_unordered) = [] \<and>
   kv (floyd_m ex_unordered) ZP_META_KEY_MT = None \<and>
   kv (floyd_m ex_unordered) ZP_META_KEY_PN = None \<and>
   kv (floyd_m ex_unordered) ZP_META_KEY_ND = Some (NodesBytes ex_unordered_nodes) \<and>
   filter (\<lambda>ns. status ns = 0) ex_unordered_nodes =
     [ex_up ''10.0.0.3'', ex_up ''10.0.0.1'', ex_up ''10.0.0.2''] \<and>
   distinct [ip (node (ex_up ''10.0.0.3'')), ip (node (ex_up ''10.0.0.1'')),
             ip (node (ex_up ''10.0.0.2''))] \<and>
   InitVersion ex_unordered = Some (OK, ex_unordered\<lparr>version_m := - 1\<rparr>) \<and>
   map_option fst (returned (Distribute (ex_unordered\<lparr>version_m := - 1\<rparr>) 4)) = Some OK \<and>
   map_option (\<lambda>r. kv (floyd_m (snd r)) ZP_META_KEY_PN)
     (returned (Distribute (ex_unordered\<lparr>version_m := - 1\<rparr>) 4)) = Some (Some (Text ''4'')) \<and>
   map_option (\<lambda>r. kv (floyd_m (snd r)) ZP_META_KEY_MT)
     (returned (Distribute (ex_unordered\<lparr>version_m := - 1\<rparr>) 4)) =
     Some (Some (PullBytes ex_bootstrap_table)) \<and>
   version ex_bootstrap_table = 0 \<and>
   map (\<lambda>p. master p # slaves p) (info ex_bootstrap_table) =
     [[ex_node ''10.0.0.1'', ex_node ''10.0.0.2'', ex_node ''10.0.0.3''],
      [ex_node ''10.0.0.2'', ex_node ''10.0.0.3'', ex_node ''10.0.0.1''],
      [ex_node ''10.0.0.3'', ex_node ''10.0.0.1'', ex_node ''10.0.0.2''],
      [ex_node ''10.0.0.1'', ex_node ''10.0.0.2'', ex_node ''10.0.0.3'']]"
proof -
  have h: "faults (floyd_m ex_unordered) = []"
    "kv (floyd_m ex_unordered) ZP_META_KEY_MT = None"
    "kv (floyd_m ex_unordered) ZP_META_KEY_PN = None"
    "kv (floyd_m ex_unordered) ZP_META_KEY_ND = Some (NodesBytes ex_unordered_nodes)"
    by (simp_all add: ex_unordered_def ex_defs key_defs)
  have f: "filter (\<lambda>ns. status ns = 0) ex_unordered_nodes =
     [ex_up ''10.0.0.3'', ex_up ''10.0.0.1'', ex_up ''10.0.0.2'']"
    by (simp add: ex_unordered_nodes_def ex_down_def ex_defs)
  have di: "distinct [ip (node (ex_up ''10.0.0.3'')), ip (node (ex_up ''10.0.0.1'')),
             ip (node (ex_up ''10.0.0.2''))]"
    by (simp add: ex_defs)
  from bootstrap_version_zero [OF h f di]
  have iv: "InitVersion ex_unordered = Some (OK, ex_unordered\<lparr>version_m := - 1\<rparr>)"
    by blast
  have t: "version ex_bootstrap_table = 0"
    "map (\<lambda>p. master p # slaves p) (info ex_bootstrap_table) =
     [[ex_node ''10.0.0.1'', ex_node ''10.0.0.2'', ex_node ''10.0.0.3''],
      [ex_node ''10.0.0.2'', ex_node ''10.0.0.3'', ex_node ''10.0.0.1''],
      [ex_node ''10.0.0.3'', ex_node ''10.0.0.1'', ex_node ''10.0.0.2''],
      [ex_node ''10.0.0.1'', ex_node ''10.0.0.2'', ex_node ''10.0.0.3'']]"
    by (simp_all add: ex_bootstrap_table_def)
  from h f di iv Distribute_unordered t show ?thesis by blast
qed

text \<open>C6 as stated fails: the version of the first table is 0, not 1.\<close>

theorem bootstrap_version_counterexample:
  "InitVersion ex_three_hosts = Some (OK, ex_three_hosts\<lparr>version_m := - 1\<rparr>) \<and>
   map_option (\<lambda>r. kv (floyd_m (snd r)) ZP_META_KEY_MT)
     (returned (Distribute (ex_three_hosts\<lparr>version_m := - 1\<rparr>) 4)) =
     Some (Some (PullBytes ex_bootstrap_table)) \<and>
   version ex_bootstrap_table \<noteq> 1"
  by (simp add: InitVersion_three_hosts Distribute_three_hosts)
     (simp add: ex_bootstrap_table_def)

section \<open>A failed write of the table in Distribute\<close>

text \<open>
  C7. After a write of the table that fails, \<open>Distribute\<close> should neither store the partition
  number nor report success, as \<open>OffNode\<close> and \<open>OnNode\<close> return the failure of that write. It
  does both: with one node up and the write of the table failing, it returns ok, the
  partition number 1 is stored, no table is stored and the cached version is still \<open>-1\<close>.
\<close>

theorem Distribute_ignores_failed_table_write:
  "map_option fst (returned (Distribute ex_mt_write_fails 1)) = Some OK \<and>
   map_option (\<lambda>r. kv (floyd_m (snd r)) ZP_META_KEY_PN)
     (returned (Distribute ex_mt_write_fails 1)) = Some (Some (Text ''1'')) \<and>
   map_option (\<lambda>r. kv (floyd_m (snd r)) ZP_META_KEY_MT)
     (returned (Distribute ex_mt_write_fails 1)) = Some None \<and>
   map_option (\<lambda>r. version_m (snd r)) (returned (Distribute ex_mt_write_fails 1)) = Some (- 1) \<and>
   map_option (\<lambda>r. wlog (floyd_m (snd r))) (returned (Distribute ex_mt_write_fails 1)) =
     Some [(''PART:0'', ReplicasetBytes
              \<lparr>rs_id = 0,
               rs_node = [ex_node ''10.0.0.1'', ex_node ''10.0.0.1'', ex_node ''10.0.0.1'']\<rparr>, True),
           (''MT'', PullBytes
              \<lparr>version = 0,
               info = [\<lparr>p_id = 0, master = ex_node ''10.0.0.1'',
                        slaves = [ex_node ''10.0.0.1'', ex_node ''10.0.0.1'']\<rparr>]\<rparr>, False),
           (''PN'', Text ''1'', True)]"
  by (simp add: returned_def ex_mt_write_fails_def ex_defs key_defs
      store_defs server_defs distribute_defs reorg_defs)

section \<open>Calls that change no partition\<close>

text \<open>
  C8. When the endpoint is the master of no partition of the stored table, \<open>OffNode\<close> issues
  no write of the table, and the stored table and the cached version are after the call what
  they were before. The same holds of \<open>OnNode\<close> when the endpoint is a slave of no partition
  whose master is empty.
\<close>

theorem no_rewrite_without_change:
  "((\<forall>t. kv (floyd_m s) ZP_META_KEY_MT = Some (PullBytes t) \<longrightarrow>
         (\<forall>p\<in>set (info t). master p \<noteq> \<lparr>ip = ip0, port = port0\<rparr>)) \<longrightarrow>
      mt_writes (snd (OffNode s ip0 port0)) = mt_writes s \<and>
      version_m (snd (OffNode s ip0 port0)) = version_m s \<and>
      kv (floyd_m (snd (OffNode s ip0 port0))) ZP_META_KEY_MT = kv (floyd_m s) ZP_META_KEY_MT) \<and>
   ((\<forall>t. kv (floyd_m s) ZP_META_KEY_MT = Some (PullBytes t) \<longrightarrow>
         (\<forall>p\<in>set (info t). master p = \<lparr>ip = [], port = 0\<rparr> \<longrightarrow>
                            \<lparr>ip = ip0, port = port0\<rparr> \<notin> set (slaves p))) \<longrightarrow>
      mt_writes (snd (OnNode s ip0 port0)) = mt_writes s \<and>
      version_m (snd (OnNode s ip0 port0)) = version_m s \<and>
      kv (floyd_m (snd (OnNode s ip0 port0))) ZP_META_KEY_MT = kv (floyd_m s) ZP_META_KEY_MT)"
proof (intro conjI impI)
  assume h: "\<forall>t. kv (floyd_m s) ZP_META_KEY_MT = Some (PullBytes t) \<longrightarrow>
         (\<forall>p\<in>set (info t). master p \<noteq> \<lparr>ip = ip0, port = port0\<rparr>)"
  obtain st s' where o: "OffNode s ip0 port0 = (st, s')" by (metis prod.exhaust)
  from OffNode_cases [OF o] h have "mt_unchanged s s'"
    by (auto simp: is_master_of_eq)
  with o show "mt_writes (snd (OffNode s ip0 port0)) = mt_writes s"
    and "version_m (snd (OffNode s ip0 port0)) = version_m s"
    and "kv (floyd_m (snd (OffNode s ip0 port0))) ZP_META_KEY_MT = kv (floyd_m s) ZP_META_KEY_MT"
    by (simp_all add: mt_unchanged_def)
next
  assume h: "\<forall>t. kv (floyd_m s) ZP_META_KEY_MT = Some (PullBytes t) \<longrightarrow>
         (\<forall>p\<in>set (info t). master p = \<lparr>ip = [], port = 0\<rparr> \<longrightarrow>
                            \<lparr>ip = ip0, port = port0\<rparr> \<notin> set (slaves p))"
  obtain st s' where o: "OnNode s ip0 port0 = (st, s')" by (metis prod.exhaust)
  from OnNode_cases [OF o] h have "unchanged s s'"
    by (auto simp: OnNode_for_fst OnNode_partition_fst)
  then have "mt_unchanged s s'" by (rule unchanged_mt)
  with o show "mt_writes (snd (OnNode s ip0 port0)) = mt_writes s"
    and "version_m (snd (OnNode s ip0 port0)) = version_m s"
    and "kv (floyd_m (snd (OnNode s ip0 port0))) ZP_META_KEY_MT = kv (floyd_m s) ZP_META_KEY_MT"
    by (simp_all add: mt_unchanged_def)
qed

theorem no_rewrite_without_change_witness:
  "kv (floyd_m ex_steady) ZP_META_KEY_MT = Some (PullBytes ex_steady_table) \<and>
   map master (info ex_steady_table) = [ex_node ''10.0.0.2'', \<lparr>ip = [], port = 0\<rparr>] \<and>
   map slaves (info ex_steady_table) =
     [[ex_node ''10.0.0.3'', ex_node ''10.0.0.1''], [ex_node ''10.0.0.3'']] \<and>
   mt_writes (snd (OffNode ex_steady ''10.0.0.1'' 5000)) = mt_writes ex_steady \<and>
   version_m (snd (OffNode ex_steady ''10.0.0.1'' 5000)) = version_m ex_steady \<and>
   kv (floyd_m (snd (OffNode ex_steady ''10.0.0.1'' 5000))) ZP_META_KEY_MT =
     kv (floyd_m ex_steady) ZP_META_KEY_MT \<and>
   mt_writes (snd (OnNode ex_steady ''10.0.0.1'' 5000)) = mt_writes ex_steady \<and>
   version_m (snd (OnNode ex_steady ''10.0.0.1'' 5000)) = version_m ex_steady \<and>
   kv (floyd_m (snd (OnNode ex_steady ''10.0.0.1'' 5000))) ZP_META_KEY_MT =
     kv (floyd_m ex_steady) ZP_META_KEY_MT"
proof -
  have mt: "kv (floyd_m ex_steady) ZP_META_KEY_MT = Some (PullBytes ex_steady_table)"
    by (simp add: ex_steady_def ex_defs key_defs)
  have ms: "map master (info ex_steady_table) = [ex_node ''10.0.0.2'', \<lparr>ip = [], port = 0\<rparr>]"
    "map slaves (info ex_steady_table) =
       [[ex_node ''10.0.0.3'', ex_node ''10.0.0.1''], [ex_node ''10.0.0.3'']]"
    by (simp_all add: ex_steady_table_def)
  have h1: "\<forall>t. kv (floyd_m ex_steady) ZP_META_KEY_MT = Some (PullBytes t) \<longrightarrow>
        (\<forall>p\<in>set (info t). master p \<noteq> \<lparr>ip = ''10.0.0.1'', port = 5000\<rparr>)"
    by (auto simp: mt ex_steady_table_def ex_defs)
  have h2: "\<forall>t. kv (floyd_m ex_steady) ZP_META_KEY_MT = Some (PullBytes t) \<longrightarrow>
        (\<forall>p\<in>set (info t). master p = \<lparr>ip = [], port = 0\<rparr> \<longrightarrow>
                           \<lparr>ip = ''10.0.0.1'', port = 5000\<rparr> \<notin> set (slaves p))"
    by (auto simp: mt ex_steady_table_def ex_defs)
  from no_rewrite_without_change [of ex_steady "''10.0.0.1''" 5000] h1 h2 mt ms show ?thesis
    by blast
qed

section \<open>Liveness and the nodes table\<close>

text \<open>
  C9, as amended. Call the liveness map sound when each of its endpoints has an entry of the
  stored nodes table that is up. The map is sound after \<open>RestoreNodeAlive\<close> on the nodes of
  the stored table that are up. If it is sound before \<open>AddNodeAlive\<close> and \<open>AddNodeAlive\<close>
  returns ok, it is sound afterwards and holds the endpoint that joined. \<open>UpdateNodeAlive\<close>
  and the sweep of \<open>CheckNodeAlive\<close> add no endpoint and keep it sound. Each operation is
  taken alone, without an interleaved task of the update thread.
\<close>

theorem liveness_after_success:
  "liveness_ok P F (RestoreNodeAlive F s (GetAllAliveNode (persisted_nodes s) []) now) \<and>
   (liveness_ok P F s \<and> fst (AddNodeAlive P s ip_port now) = OK \<longrightarrow>
      liveness_ok P F (snd (AddNodeAlive P s ip_port now)) \<and>
      ip_port \<in> fst ` set (node_alive_m (snd (AddNodeAlive P s ip_port now)))) \<and>
   (liveness_ok P F s \<longrightarrow> liveness_ok P F (snd (UpdateNodeAlive s ip_port now))) \<and>
   (liveness_ok P F s \<longrightarrow> liveness_ok P F (CheckNodeAlive T s now))"
proof (intro conjI impI)
  show "liveness_ok P F (RestoreNodeAlive F s (GetAllAliveNode (persisted_nodes s) []) now)"
    by (rule RestoreNodeAlive_ok)
next
  assume "liveness_ok P F s \<and> fst (AddNodeAlive P s ip_port now) = OK"
  then have h: "liveness_ok P F s" "fst (AddNodeAlive P s ip_port now) = OK" by simp_all
  from AddNodeAlive_ok [OF h]
  show "liveness_ok P F (snd (AddNodeAlive P s ip_port now))"
    and "ip_port \<in> fst ` set (node_alive_m (snd (AddNodeAlive P s ip_port now)))"
    by simp_all
next
  assume "liveness_ok P F s"
  then show "liveness_ok P F (snd (UpdateNodeAlive s ip_port now))"
    by (rule UpdateNodeAlive_ok)
next
  assume "liveness_ok P F s"
  then show "liveness_ok P F (CheckNodeAlive T s now)"
    by (rule CheckNodeAlive_ok)
qed

theorem liveness_after_success_witness:
  "node_alive_m ex_joined = [(''10.0.0.1:5000'', 90)] \<and>
   persisted_nodes ex_joined = [ex_up ''10.0.0.1''] \<and>
   ex_ParseIpPortString ''10.0.0.1:5000'' = Some (''10.0.0.1'', 5000) \<and>
   ex_ParseIpPortString ''10.0.0.2:5000'' = Some (''10.0.0.2'', 5000) \<and>
   fst (AddNodeAlive ex_ParseIpPortString ex_joined ''10.0.0.2:5000'' 100) = OK \<and>
   node_alive_m (snd (AddNodeAlive ex_ParseIpPortString ex_joined ''10.0.0.2:5000'' 100)) =
     [(''10.0.0.1:5000'', 90), (''10.0.0.2:5000'', 100)] \<and>
   persisted_nodes (snd (AddNodeAlive ex_ParseIpPortString ex_joined ''10.0.0.2:5000'' 100)) =
     [ex_up ''10.0.0.1'', ex_up ''10.0.0.2''] \<and>
   ''10.0.0.2:5000'' \<in>
     fst ` set (node_alive_m (snd (AddNodeAlive ex_ParseIpPortString ex_joined ''10.0.0.2:5000'' 100)))"
proof -
  have na: "node_alive_m ex_joined = [(''10.0.0.1:5000'', 90)]"
    and pn: "persisted_nodes ex_joined = [ex_up ''10.0.0.1'']"
    by (simp_all add: ex_joined_def persisted_nodes_def ex_defs key_defs)
  have lv: "liveness_ok ex_ParseIpPortString ex_IpPortString ex_joined"
    unfolding liveness_ok_def na pn by (simp add: ex_parse_values ex_defs)
  from liveness_after_success
    [of ex_ParseIpPortString ex_IpPortString ex_joined 100 "''10.0.0.2:5000''"]
    lv AddNodeAlive_ex_joined(1)
  have "''10.0.0.2:5000'' \<in>
     fst ` set (node_alive_m (snd (AddNodeAlive ex_ParseIpPortString ex_joined ''10.0.0.2:5000'' 100)))"
    by blast
  with na pn ex_parse_values AddNodeAlive_ex_joined show ?thesis by blast
qed

text \<open>
  C9 as stated fails after an \<open>AddNodeAlive\<close> that does not succeed: the endpoint is put
  into the liveness map before the node is added, and stays there when the write of the
  nodes table fails.
\<close>

theorem liveness_after_failed_join_counterexample:
  "fst (AddNodeAlive ex_ParseIpPortString ex_join_write_fails ''10.0.0.1:5000'' 100) =
     Corruption ''floyd set error!'' \<and>
   node_alive_m (snd (AddNodeAlive ex_ParseIpPortString ex_join_write_fails ''10.0.0.1:5000'' 100)) =
     [(''10.0.0.1:5000'', 100)] \<and>
   persisted_nodes (snd (AddNodeAlive ex_ParseIpPortString ex_join_write_fails ''10.0.0.1:5000'' 100)) =
     [] \<and>
   \<not> liveness_ok ex_ParseIpPortString ex_IpPortString
       (snd (AddNodeAlive ex_ParseIpPortString ex_join_write_fails ''10.0.0.1:5000'' 100))"
proof -
  have e: "fst (AddNodeAlive ex_ParseIpPortString ex_join_write_fails ''10.0.0.1:5000'' 100) =
     Corruption ''floyd set error!''"
    "node_alive_m (snd (AddNodeAlive ex_ParseIpPortString ex_join_write_fails ''10.0.0.1:5000'' 100)) =
     [(''10.0.0.1:5000'', 100)]"
    "persisted_nodes (snd (AddNodeAlive ex_ParseIpPortString ex_join_write_fails ''10.0.0.1:5000'' 100)) =
     []"
    by (simp_all add: AddNodeAlive_def ex_parse_values AddNode_def persisted_nodes_def
        ex_join_write_fails_def ex_defs key_defs store_defs server_defs)
  then show ?thesis by (simp add: liveness_ok_def)
qed

section \<open>An unreadable partition number\<close>

text \<open>
  C10. When the key of the partition number is absent from the store, or the dirty read of it
  fails, \<open>PartitionNums\<close> returns 0 and changes nothing, so that \<open>Distribute\<close> passes its guard
  and does what the placement does.
\<close>

theorem PartitionNums_unreadable:
  assumes "kv (floyd_m s) ZP_META_KEY_PN = None \<or>
           (faults (floyd_m s) \<noteq> [] \<and> hd (faults (floyd_m s)))"
  shows "fst (PartitionNums s) = Some 0 \<and>
         unchanged s (snd (PartitionNums s)) \<and>
         Distribute s num = Distribute_placement (snd (PartitionNums s)) num"
proof -
  obtain fs v f' where r: "floyd_DirtyRead (floyd_m s) ZP_META_KEY_PN = ((fs, v), f')"
    by (metis prod.exhaust)
  from assms r have "fs \<noteq> FOk"
    by (auto simp: floyd_DirtyRead_def next_fault_def split: list.splits prod.splits if_splits)
  with r have p: "PartitionNums s = (Some 0, s\<lparr>floyd_m := f'\<rparr>)"
    by (simp add: PartitionNums_def)
  from PartitionNums_frame [OF p] p show ?thesis
    by (simp add: Distribute_def)
qed

theorem PartitionNums_unreadable_witness:
  "kv (floyd_m ex_three_hosts) ZP_META_KEY_PN = None \<and>
   fst (PartitionNums ex_three_hosts) = Some 0 \<and>
   unchanged ex_three_hosts (snd (PartitionNums ex_three_hosts)) \<and>
   Distribute ex_three_hosts 4 = Distribute_placement (snd (PartitionNums ex_three_hosts)) 4"
proof -
  have h: "kv (floyd_m ex_three_hosts) ZP_META_KEY_PN = None"
    by (simp add: ex_three_hosts_def ex_defs key_defs)
  then have "kv (floyd_m ex_three_hosts) ZP_META_KEY_PN = None \<or>
    (faults (floyd_m ex_three_hosts) \<noteq> [] \<and> hd (faults (floyd_m ex_three_hosts)))"
    by simp
  from PartitionNums_unreadable [OF this, of 4] h show ?thesis
    by blast
qed

end
